theory Spec2Isabelle
  imports Complex_Main "HOL-Library.Sublist"
begin

section \<open>JavaScript strings\<close>

text \<open>
  A JavaScript string is a sequence of UTF-16 code units, and \<open>indexOf\<close>,
  \<open>lastIndexOf\<close> and \<open>substring\<close> count code units. The embedding writes a
  string as a list with one element per code unit; the three functions are
  polymorphic in the element type. Program texts are \<^typ>\<open>string\<close>, one
  \<^typ>\<open>char\<close> per code unit (code units below 256).
\<close>

text \<open>\<open>occurs_at n s i\<close>: the string \<open>n\<close> occurs in \<open>s\<close> at index \<open>i\<close>.\<close>

definition occurs_at :: "'a list \<Rightarrow> 'a list \<Rightarrow> nat \<Rightarrow> bool" where
  "occurs_at n s i \<longleftrightarrow> i \<le> length s \<and> prefix n (drop i s)"

text \<open>
  \<open>String.prototype.indexOf(n)\<close>: the least index at which \<open>n\<close> occurs, or \<open>-1\<close>.
  The scan carries the index \<open>k\<close> of the head of the remaining text.
\<close>

fun indexOf_from :: "'a list \<Rightarrow> 'a list \<Rightarrow> nat \<Rightarrow> int" where
  "indexOf_from [] n k = (if n = [] then int k else - 1)"
| "indexOf_from (c # cs) n k =
     (if prefix n (c # cs) then int k else indexOf_from cs n (Suc k))"

definition indexOf :: "'a list \<Rightarrow> 'a list \<Rightarrow> int" where
  "indexOf s n = indexOf_from s n 0"

text \<open>
  \<open>String.prototype.lastIndexOf(n)\<close>: the greatest index at which \<open>n\<close> occurs, or
  \<open>-1\<close>. The scan remembers the latest match in \<open>best\<close>.
\<close>

fun lastIndexOf_from :: "'a list \<Rightarrow> 'a list \<Rightarrow> nat \<Rightarrow> int \<Rightarrow> int" where
  "lastIndexOf_from [] n k best = (if n = [] then int k else best)"
| "lastIndexOf_from (c # cs) n k best =
     lastIndexOf_from cs n (Suc k) (if prefix n (c # cs) then int k else best)"

definition lastIndexOf :: "'a list \<Rightarrow> 'a list \<Rightarrow> int" where
  "lastIndexOf s n = lastIndexOf_from s n 0 (- 1)"

text \<open>
  \<open>String.prototype.substring(start, end)\<close>: both indices are clamped to
  \<open>[0, length]\<close>, and swapped when the first exceeds the second.
\<close>

definition substring :: "'a list \<Rightarrow> int \<Rightarrow> int \<Rightarrow> 'a list" where
  "substring s start end' =
     (let len = int (length s);
          finalStart = min (max start 0) len;
          finalEnd = min (max end' 0) len;
          from = min finalStart finalEnd;
          to = max finalStart finalEnd
      in take (nat (to - from)) (drop (nat from) s))"

section \<open>lib/parse: extracting the HTML document\<close>

definition DOCTYPE :: string where
  "DOCTYPE = ''<!DOCTYPE html>''"

text \<open>
  \<open>parseHTML(str, opener, closer)\<close>: from the first \<open><!DOCTYPE html>\<close> to the last
  occurrence of \<open>closer\<close>. The parameter \<open>opener\<close> is not read.
\<close>

definition parseHTML :: "string \<Rightarrow> string \<Rightarrow> string \<Rightarrow> string" where
  "parseHTML str opener closer =
     (let start = indexOf str DOCTYPE;
          end' = lastIndexOf str closer
      in substring str start end')"


section \<open>lib/textGeneration: one call to the generative backend\<close>

text \<open>
  What a JavaScript \<open>throw\<close> carries: an \<open>Error\<close> with its message, the engine's
  \<open>SyntaxError\<close> and \<open>TypeError\<close> (subclasses of \<open>Error\<close>, with a message), or a
  value that is no \<open>Error\<close> at all, which a rejected backend promise may deliver.
  \<open>Unrepresentable\<close> is not a JavaScript exception: it marks a result holding a
  code unit above 255, which a \<^typ>\<open>string\<close> of this embedding cannot hold.
\<close>

datatype thrown =
    Error string
  | SyntaxError string
  | TypeError string
  | NonError
  | Unrepresentable

text \<open>JavaScript truthiness of a string, and of a string that may be undefined.\<close>

definition truthy :: "string \<Rightarrow> bool" where
  "truthy s \<longleftrightarrow> s \<noteq> []"

definition truthy_opt :: "string option \<Rightarrow> bool" where
  "truthy_opt v = (case v of None \<Rightarrow> False | Some s \<Rightarrow> truthy s)"

text \<open>The value a truthiness test has let through: a string that is there and not empty.\<close>

definition truthy_value :: "string option \<Rightarrow> string option" where
  "truthy_value v = (case v of None \<Rightarrow> None | Some s \<Rightarrow> if truthy s then Some s else None)"

record GenerateTextOptions =
  modelName :: string
  prompt :: string
  videoUrl :: "string option"
  temperature :: "rat option"

text \<open>A part of the message: \<open>{text}\<close> or \<open>{fileData: {mimeType, fileUri}}\<close>.\<close>

datatype Part = TextPart string | FileDataPart string string

text \<open>
  The request \<open>{model, contents: [{role: 'user', parts}], config: {temperature}}\<close>:
  there is always the one content, of role \<open>user\<close>.
\<close>

record GenerateContentParameters =
  model :: string
  parts :: "Part list"
  config_temperature :: rat

text \<open>The text parts of a request, joined: the prompt it carries.\<close>

definition prompt_of :: "GenerateContentParameters \<Rightarrow> string" where
  "prompt_of request = concat (map (\<lambda>p. case p of TextPart t \<Rightarrow> t | FileDataPart m u \<Rightarrow> []) (parts request))"

record PromptFeedback =
  blockReason :: "string option"

record Candidate =
  finishReason :: "string option"

text \<open>
  The fields of the backend's response that \<open>generateText\<close> reads. Block and
  finish reasons are string enums of the client library; \<open>response_text\<close> is the
  response's \<open>text\<close>, which is undefined (\<open>None\<close>) when the first candidate has no
  text part.
\<close>

record GenerateContentResponse =
  promptFeedback :: "PromptFeedback option"
  candidates :: "Candidate list option"
  response_text :: "string option"

text \<open>The client library's values of \<open>FinishReason.STOP\<close> and \<open>FinishReason.SAFETY\<close>.\<close>

definition FinishReason_STOP :: string where
  "FinishReason_STOP = ''STOP''"

definition FinishReason_SAFETY :: string where
  "FinishReason_SAFETY = ''SAFETY''"

text \<open>
  \<open>generateText\<close> up to its \<open>await\<close>: the credential check and the request it builds.
  The first argument is the module's \<open>GEMINI_API_KEY\<close>.
\<close>

definition generateText_request ::
  "string option \<Rightarrow> GenerateTextOptions \<Rightarrow> thrown + GenerateContentParameters" where
  "generateText_request apiKey options =
     (if \<not> truthy_opt apiKey then Inl (Error ''Gemini API key is missing or empty'')
      else Inr \<lparr> model = modelName options,
                 parts = TextPart (prompt options) #
                   (case videoUrl options of
                      None \<Rightarrow> []
                    | Some u \<Rightarrow> if truthy u then [FileDataPart ''video/mp4'' u] else []),
                 config_temperature =
                   (case temperature options of None \<Rightarrow> 3 / 4 | Some t \<Rightarrow> t) \<rparr>)"

text \<open>\<open>response.promptFeedback?.blockReason\<close>\<close>

definition prompt_blockReason :: "GenerateContentResponse \<Rightarrow> string option" where
  "prompt_blockReason response =
     (case promptFeedback response of None \<Rightarrow> None | Some fb \<Rightarrow> blockReason fb)"

text \<open>
  \<open>generateText\<close> from its \<open>await\<close> on: the backend call has either thrown, which
  the \<open>catch\<close> logs and throws again, or returned a response, which is checked.
\<close>

definition generateText_response ::
  "thrown + GenerateContentResponse \<Rightarrow> thrown + string option" where
  "generateText_response outcome =
     (case outcome of
        Inl e \<Rightarrow> Inl e
      | Inr response \<Rightarrow>
          (case truthy_value (prompt_blockReason response) of
             Some reason \<Rightarrow>
               Inl (Error (''Content generation failed: Prompt blocked (reason: ''
                             @ reason @ '')''))
           | None \<Rightarrow>
               (case candidates response of
                  None \<Rightarrow> Inl (Error ''Content generation failed: No candidates returned.'')
                | Some [] \<Rightarrow> Inl (Error ''Content generation failed: No candidates returned.'')
                | Some (firstCandidate # _) \<Rightarrow>
                    (case truthy_value (finishReason firstCandidate) of
                       None \<Rightarrow> Inr (response_text response)
                     | Some reason \<Rightarrow>
                         if reason \<noteq> FinishReason_STOP then
                           (if reason = FinishReason_SAFETY then
                              Inl (Error
                                ''Content generation failed: Response blocked due to safety settings.'')
                            else
                              Inl (Error (''Content generation failed: Stopped due to ''
                                            @ reason @ ''.'')))
                         else Inr (response_text response)))))"

text \<open>
  The whole of \<open>generateText\<close> against a backend \<open>call\<close>, which answers a request
  with a response or throws. The second component lists the requests sent. What
  it returns is the response's \<open>text\<close>, a string or undefined.
\<close>

definition generateText ::
  "string option \<Rightarrow> (GenerateContentParameters \<Rightarrow> thrown + GenerateContentResponse)
     \<Rightarrow> GenerateTextOptions
     \<Rightarrow> (thrown + string option) \<times> GenerateContentParameters list" where
  "generateText apiKey call options =
     (case generateText_request apiKey options of
        Inl e \<Rightarrow> (Inl e, [])
      | Inr request \<Rightarrow> (generateText_response (call request), [request]))"

section \<open>The engine's \<open>JSON.parse\<close>\<close>

text \<open>
  \<open>parseJSON\<close> hands its substring to the built-in \<open>JSON.parse\<close>. The built-in is
  modelled by a lexer and a parser for the JSON grammar, both reading their input
  one symbol at a time. A number is kept as its lexeme, since its value is a
  floating-point number. An object keeps its members in the order of the text; a
  later member with the same key overrides an earlier one when a property is read.
\<close>

datatype json =
    JNull
  | JBool bool
  | JNumber string
  | JString string
  | JArray "json list"
  | JObject "(string \<times> json) list"

datatype literal = LitTrue | LitFalse | LitNull

datatype token =
    LBrace | RBrace | LBracket | RBracket | Colon | Comma
  | TString string
  | TNumber string
  | TLiteral literal

text \<open>Where the lexer is inside a number.\<close>

datatype numstate = NMinus | NZero | NInt | NDot | NFrac | NExp | NExpSign | NExpDigits

text \<open>
  The lexer is between tokens, inside a string (with what it has decoded), after a
  backslash, inside a \<open>\u\<close> escape (with the digits read), inside a number (with the
  lexeme read) or inside \<open>true\<close>, \<open>false\<close> or \<open>null\<close> (with the number of letters read).
\<close>

datatype lexstate =
    Idle
  | InString string
  | InEscape string
  | InUnicode string "nat list"
  | InNumber numstate string
  | InLiteral literal nat

fun literal_name :: "literal \<Rightarrow> string" where
  "literal_name LitTrue = ''true''"
| "literal_name LitFalse = ''false''"
| "literal_name LitNull = ''null''"

definition is_digit :: "char \<Rightarrow> bool" where
  "is_digit c \<longleftrightarrow> c \<in> set ''0123456789''"

definition is_json_space :: "char \<Rightarrow> bool" where
  "is_json_space c \<longleftrightarrow> c \<in> {CHR 0x20, CHR 0x09, CHR 0x0A, CHR 0x0D}"

definition hex_value :: "char \<Rightarrow> nat option" where
  "hex_value c =
     (if c \<in> set ''0123456789'' then Some (of_char c - 48)
      else if c \<in> set ''abcdef'' then Some (of_char c - 87)
      else if c \<in> set ''ABCDEF'' then Some (of_char c - 55)
      else None)"

fun num_step :: "numstate \<Rightarrow> char \<Rightarrow> numstate option" where
  "num_step NMinus c =
     (if c = CHR ''0'' then Some NZero else if is_digit c then Some NInt else None)"
| "num_step NZero c =
     (if c = CHR ''.'' then Some NDot
      else if c = CHR ''e'' \<or> c = CHR ''E'' then Some NExp else None)"
| "num_step NInt c =
     (if is_digit c then Some NInt
      else if c = CHR ''.'' then Some NDot
      else if c = CHR ''e'' \<or> c = CHR ''E'' then Some NExp else None)"
| "num_step NDot c = (if is_digit c then Some NFrac else None)"
| "num_step NFrac c =
     (if is_digit c then Some NFrac
      else if c = CHR ''e'' \<or> c = CHR ''E'' then Some NExp else None)"
| "num_step NExp c =
     (if c = CHR ''+'' \<or> c = CHR ''-'' then Some NExpSign
      else if is_digit c then Some NExpDigits else None)"
| "num_step NExpSign c = (if is_digit c then Some NExpDigits else None)"
| "num_step NExpDigits c = (if is_digit c then Some NExpDigits else None)"

fun num_final :: "numstate \<Rightarrow> bool" where
  "num_final NZero = True"
| "num_final NInt = True"
| "num_final NFrac = True"
| "num_final NExpDigits = True"
| "num_final _ = False"

text \<open>
  A step of the lexer gives the tokens completed by the symbol, the next state, and
  whether a \<open>\u\<close> escape has just named a code unit above 255; \<open>None\<close> is a syntax
  error.
\<close>

definition lex_idle :: "char \<Rightarrow> (token list \<times> lexstate \<times> bool) option" where
  "lex_idle c =
     (if is_json_space c then Some ([], Idle, False)
      else if c = CHR ''{'' then Some ([LBrace], Idle, False)
      else if c = CHR ''}'' then Some ([RBrace], Idle, False)
      else if c = CHR ''['' then Some ([LBracket], Idle, False)
      else if c = CHR '']'' then Some ([RBracket], Idle, False)
      else if c = CHR '':'' then Some ([Colon], Idle, False)
      else if c = CHR '','' then Some ([Comma], Idle, False)
      else if c = CHR 0x22 then Some ([], InString [], False)
      else if c = CHR ''-'' then Some ([], InNumber NMinus [c], False)
      else if c = CHR ''0'' then Some ([], InNumber NZero [c], False)
      else if is_digit c then Some ([], InNumber NInt [c], False)
      else if c = CHR ''t'' then Some ([], InLiteral LitTrue 1, False)
      else if c = CHR ''f'' then Some ([], InLiteral LitFalse 1, False)
      else if c = CHR ''n'' then Some ([], InLiteral LitNull 1, False)
      else None)"

definition unescape :: "char \<Rightarrow> char option" where
  "unescape c =
     (if c = CHR 0x22 \<or> c = CHR 0x5C \<or> c = CHR ''/'' then Some c
      else if c = CHR ''b'' then Some (CHR 0x08)
      else if c = CHR ''f'' then Some (CHR 0x0C)
      else if c = CHR ''n'' then Some (CHR 0x0A)
      else if c = CHR ''r'' then Some (CHR 0x0D)
      else if c = CHR ''t'' then Some (CHR 0x09)
      else None)"

fun lex_step :: "lexstate \<Rightarrow> char \<Rightarrow> (token list \<times> lexstate \<times> bool) option" where
  "lex_step Idle c = lex_idle c"
| "lex_step (InString acc) c =
     (if c = CHR 0x22 then Some ([TString acc], Idle, False)
      else if c = CHR 0x5C then Some ([], InEscape acc, False)
      else if (of_char c :: nat) < 32 then None
      else Some ([], InString (acc @ [c]), False))"
| "lex_step (InEscape acc) c =
     (if c = CHR ''u'' then Some ([], InUnicode acc [], False)
      else (case unescape c of
              None \<Rightarrow> None
            | Some d \<Rightarrow> Some ([], InString (acc @ [d]), False)))"
| "lex_step (InUnicode acc ds) c =
     (case hex_value c of
        None \<Rightarrow> None
      | Some d \<Rightarrow>
          if length ds < 3 then Some ([], InUnicode acc (ds @ [d]), False)
          else (let n = foldl (\<lambda>v h. 16 * v + h) 0 (ds @ [d])
                in if n < 256 then Some ([], InString (acc @ [char_of n]), False)
                   else Some ([], InString (acc @ [CHR ''?'']), True)))"
| "lex_step (InNumber ns lexeme) c =
     (case num_step ns c of
        Some ns' \<Rightarrow> Some ([], InNumber ns' (lexeme @ [c]), False)
      | None \<Rightarrow>
          if num_final ns then
            (case lex_idle c of
               None \<Rightarrow> None
             | Some (toks, st, w) \<Rightarrow> Some (TNumber lexeme # toks, st, w))
          else None)"
| "lex_step (InLiteral lit k) c =
     (case drop k (literal_name lit) of
        [] \<Rightarrow> None
      | d # ds \<Rightarrow>
          if c \<noteq> d then None
          else if ds = [] then Some ([TLiteral lit], Idle, False)
          else Some ([], InLiteral lit (Suc k), False))"

text \<open>At the end of the text only a complete number may be pending.\<close>

fun lex_end :: "lexstate \<Rightarrow> token list option" where
  "lex_end Idle = Some []"
| "lex_end (InNumber ns lexeme) = (if num_final ns then Some [TNumber lexeme] else None)"
| "lex_end _ = None"

fun lex :: "lexstate \<Rightarrow> string \<Rightarrow> (token list \<times> bool) option" where
  "lex st [] = (case lex_end st of None \<Rightarrow> None | Some toks \<Rightarrow> Some (toks, False))"
| "lex st (c # cs) =
     (case lex_step st c of
        None \<Rightarrow> None
      | Some (toks, st', w) \<Rightarrow>
          (case lex st' cs of
             None \<Rightarrow> None
           | Some (rest, w') \<Rightarrow> Some (toks @ rest, w \<or> w')))"

text \<open>
  An enclosing array or object that waits for the value being read: the elements
  or members before it, and for an object the key of the value.
\<close>

datatype frame = ArrayFrame "json list" | ObjectFrame "(string \<times> json) list" string

text \<open>What the parser expects next, with the enclosing frames, innermost first.\<close>

datatype pstate =
    WantValue "frame list"
  | ArrayOpened "frame list"
  | ObjectOpened "frame list"
  | WantKey "(string \<times> json) list" "frame list"
  | WantColon "(string \<times> json) list" string "frame list"
  | AfterElement "json list" "frame list"
  | AfterMember "(string \<times> json) list" "frame list"
  | Finished json

text \<open>A value is complete: it goes to the innermost frame, or is the result.\<close>

fun complete :: "json \<Rightarrow> frame list \<Rightarrow> pstate" where
  "complete v [] = Finished v"
| "complete v (ArrayFrame es # stk) = AfterElement (es @ [v]) stk"
| "complete v (ObjectFrame ms k # stk) = AfterMember (ms @ [(k, v)]) stk"

fun literal_value :: "literal \<Rightarrow> json" where
  "literal_value LitTrue = JBool True"
| "literal_value LitFalse = JBool False"
| "literal_value LitNull = JNull"

fun begin_value :: "frame list \<Rightarrow> token \<Rightarrow> pstate option" where
  "begin_value stk LBrace = Some (ObjectOpened stk)"
| "begin_value stk LBracket = Some (ArrayOpened stk)"
| "begin_value stk (TString s) = Some (complete (JString s) stk)"
| "begin_value stk (TNumber n) = Some (complete (JNumber n) stk)"
| "begin_value stk (TLiteral l) = Some (complete (literal_value l) stk)"
| "begin_value stk _ = None"

fun parse_step :: "pstate \<Rightarrow> token \<Rightarrow> pstate option" where
  "parse_step (WantValue stk) t = begin_value stk t"
| "parse_step (ArrayOpened stk) t =
     (if t = RBracket then Some (complete (JArray []) stk)
      else begin_value (ArrayFrame [] # stk) t)"
| "parse_step (ObjectOpened stk) t =
     (case t of
        RBrace \<Rightarrow> Some (complete (JObject []) stk)
      | TString k \<Rightarrow> Some (WantColon [] k stk)
      | _ \<Rightarrow> None)"
| "parse_step (WantKey ms stk) t =
     (case t of TString k \<Rightarrow> Some (WantColon ms k stk) | _ \<Rightarrow> None)"
| "parse_step (WantColon ms k stk) t =
     (if t = Colon then Some (WantValue (ObjectFrame ms k # stk)) else None)"
| "parse_step (AfterElement es stk) t =
     (if t = Comma then Some (WantValue (ArrayFrame es # stk))
      else if t = RBracket then Some (complete (JArray es) stk)
      else None)"
| "parse_step (AfterMember ms stk) t =
     (if t = Comma then Some (WantKey ms stk)
      else if t = RBrace then Some (complete (JObject ms) stk)
      else None)"
| "parse_step (Finished v) t = None"

fun parse_tokens :: "pstate \<Rightarrow> token list \<Rightarrow> json option" where
  "parse_tokens st [] = (case st of Finished v \<Rightarrow> Some v | _ \<Rightarrow> None)"
| "parse_tokens st (t # ts) =
     (case parse_step st t of None \<Rightarrow> None | Some st' \<Rightarrow> parse_tokens st' ts)"

text \<open>
  \<open>JSON.parse\<close>: a \<open>SyntaxError\<close> for a text that is not JSON (the wording of the
  engine's message is not modelled), and otherwise the value. A value with a code
  unit above 255 in one of its strings is reported as \<open>Unrepresentable\<close>.
\<close>

definition JSON_parse :: "string \<Rightarrow> thrown + json" where
  "JSON_parse s =
     (case lex Idle s of
        None \<Rightarrow> Inl (SyntaxError ''JSON.parse'')
      | Some (toks, wide) \<Rightarrow>
          (case parse_tokens (WantValue []) toks of
             None \<Rightarrow> Inl (SyntaxError ''JSON.parse'')
           | Some v \<Rightarrow> if wide then Inl Unrepresentable else Inr v))"

section \<open>lib/parse: extracting the JSON payload\<close>

text \<open>\<open>parseJSON(str)\<close>: from the first \<open>{\<close> to the last \<open>}\<close>, parsed.\<close>

definition parseJSON :: "string \<Rightarrow> thrown + json" where
  "parseJSON str =
     (let start = indexOf str ''{'';
          end' = lastIndexOf str ''}'' + 1
      in JSON_parse (substring str start end'))"

text \<open>
  Parser states in which no object is open: every enclosing frame is an array's,
  and the parser is not inside an object's member list.
\<close>

fun array_frame :: "frame \<Rightarrow> bool" where
  "array_frame (ArrayFrame es) = True"
| "array_frame (ObjectFrame ms k) = False"

fun object_free :: "pstate \<Rightarrow> bool" where
  "object_free (WantValue stk) = list_all array_frame stk"
| "object_free (ArrayOpened stk) = list_all array_frame stk"
| "object_free (AfterElement es stk) = list_all array_frame stk"
| "object_free (Finished v) = True"
| "object_free _ = False"

section \<open>components/ContentContainer: the generation pipeline\<close>

text \<open>
  What the component takes from outside its own file: the four constants of
  \<open>lib/prompts\<close>, the module's \<open>GEMINI_API_KEY\<close>, the backend's
  \<open>ai.models.generateContent\<close> (it answers a request with a response, or throws),
  and the engine's rendering of a number as a string, given the number's lexeme.
\<close>

record Env =
  SPEC_FROM_VIDEO_PROMPT :: string
  SPEC_ADDENDUM :: string
  CODE_REGION_OPENER :: string
  CODE_REGION_CLOSER :: string
  GEMINI_API_KEY :: "string option"
  models_generateContent :: "GenerateContentParameters \<Rightarrow> thrown + GenerateContentResponse"
  Number_toString :: "string \<Rightarrow> string"

record ContentContainerProps =
  contentBasis :: string
  preSeededSpec :: "string option"
  preSeededCode :: "string option"

datatype LoadingState = loading_spec | loading_code | ready | error_state

text \<open>
  The component's state variables. \<open>iframeKey\<close> and the timer that clears
  \<open>saveMessage\<close> belong to rendering and are left out.
\<close>

record ContainerState =
  spec :: string
  code :: string
  saveMessage :: string
  loadingState :: LoadingState
  error :: "string option"
  isEditingSpec :: bool
  editedSpec :: string
  activeTabIndex :: nat

text \<open>\<open>v || ''\<close> for a string that may be undefined.\<close>

definition or_empty :: "string option \<Rightarrow> string" where
  "or_empty v = (case v of None \<Rightarrow> [] | Some s \<Rightarrow> s)"

text \<open>\<open>preSeededSpec && preSeededCode\<close>, as a condition.\<close>

definition preSeeded :: "ContentContainerProps \<Rightarrow> bool" where
  "preSeeded props \<longleftrightarrow> truthy_opt (preSeededSpec props) \<and> truthy_opt (preSeededCode props)"

text \<open>The initial values of the \<open>useState\<close> calls.\<close>

definition initialState :: "ContentContainerProps \<Rightarrow> ContainerState" where
  "initialState props =
     \<lparr> spec = or_empty (preSeededSpec props),
       code = or_empty (preSeededCode props),
       saveMessage = [],
       loadingState = (if preSeeded props then ready else loading_spec),
       error = None,
       isEditingSpec = False,
       editedSpec = [],
       activeTabIndex = 0 \<rparr>"

text \<open>
  \<open>err instanceof Error ? err.message : 'An unknown error occurred'\<close>. The engine's
  own errors are instances of \<open>Error\<close>. \<open>Unrepresentable\<close> stands for a run that this
  embedding cannot follow; the message given for it means nothing.
\<close>

fun error_message :: "thrown \<Rightarrow> string" where
  "error_message (Error m) = m"
| "error_message (SyntaxError m) = m"
| "error_message (TypeError m) = m"
| "error_message NonError = ''An unknown error occurred''"
| "error_message Unrepresentable = ''An unknown error occurred''"

text \<open>The \<open>catch\<close> block of \<open>generateContent\<close> and of \<open>handleSpecSave\<close>.\<close>

definition catch_error :: "thrown \<Rightarrow> ContainerState \<Rightarrow> ContainerState" where
  "catch_error err st = st\<lparr> error := Some (error_message err), loadingState := error_state \<rparr>"

text \<open>\<open>Array.prototype.join(',')\<close> on strings.\<close>

fun join_comma :: "string list \<Rightarrow> string" where
  "join_comma [] = []"
| "join_comma [s] = s"
| "join_comma (s # t # ts) = s @ '','' @ join_comma (t # ts)"

text \<open>The results of a list of conversions, or the first error among them.\<close>

fun collect :: "(thrown + string) list \<Rightarrow> thrown + string list" where
  "collect [] = Inr []"
| "collect (r # rs) =
     (case r of
        Inl e \<Rightarrow> Inl e
      | Inr s \<Rightarrow> (case collect rs of Inl e \<Rightarrow> Inl e | Inr ss \<Rightarrow> Inr (s # ss)))"

text \<open>
  The string a parsed value turns into when \<open>+=\<close> appends a string to it. An array
  joins its elements with commas, \<open>null\<close> elements as empty strings. An object is
  converted by its \<open>toString\<close>: the inherited one gives \<open>[object Object]\<close>; a member of
  its own named \<open>toString\<close> hides that one and, being a parsed value, cannot be
  called, so the conversion throws a \<open>TypeError\<close> (a member named \<open>valueOf\<close> changes
  nothing, since the inherited \<open>valueOf\<close> gives no primitive value either). The limits
  of the engine (stack depth, string length) are not modelled.
\<close>

fun ToString :: "(string \<Rightarrow> string) \<Rightarrow> json \<Rightarrow> thrown + string" where
  "ToString num JNull = Inr ''null''"
| "ToString num (JBool b) = Inr (if b then ''true'' else ''false'')"
| "ToString num (JNumber lexeme) = Inr (num lexeme)"
| "ToString num (JString s) = Inr s"
| "ToString num (JArray es) =
     (case collect (map (\<lambda>e. if e = JNull then Inr [] else ToString num e) es) of
        Inl e \<Rightarrow> Inl e
      | Inr ss \<Rightarrow> Inr (join_comma ss))"
| "ToString num (JObject ms) =
     (if list_ex (\<lambda>m. fst m = ''toString'') ms
      then Inl (TypeError ''Cannot convert object to primitive value'')
      else Inr ''[object Object]'')"

text \<open>
  \<open>parseJSON(specResponse).spec\<close>: reading a property of \<open>null\<close> throws; an object
  gives its last member of that name; anything else, and an object without the
  member, gives \<open>undefined\<close>, here \<open>None\<close>.
\<close>

fun get_spec :: "json \<Rightarrow> thrown + json option" where
  "get_spec JNull = Inl (TypeError ''Cannot read properties of null (reading 'spec')'')"
| "get_spec (JObject ms) = Inr (map_of (rev ms) ''spec'')"
| "get_spec _ = Inr None"

text \<open>\<open>spec += SPEC_ADDENDUM\<close>, for the value that \<open>.spec\<close> gave.\<close>

definition append_addendum :: "Env \<Rightarrow> json option \<Rightarrow> thrown + string" where
  "append_addendum env v =
     (case v of
        None \<Rightarrow> Inr (''undefined'' @ SPEC_ADDENDUM env)
      | Some j \<Rightarrow>
          (case ToString (Number_toString env) j of
             Inl e \<Rightarrow> Inl e
           | Inr s \<Rightarrow> Inr (s @ SPEC_ADDENDUM env)))"

text \<open>
  \<open>generateSpecFromVideo\<close>: the options of its call, and what it does with the answer.
  When the answer is undefined, \<open>parseJSON\<close> throws at its \<open>str.indexOf\<close>.
\<close>

definition generateSpecFromVideo_options :: "Env \<Rightarrow> string \<Rightarrow> GenerateTextOptions" where
  "generateSpecFromVideo_options env url =
     \<lparr> modelName = ''gemini-2.0-flash'',
       prompt = SPEC_FROM_VIDEO_PROMPT env,
       videoUrl = Some url,
       temperature = None \<rparr>"

definition generateSpecFromVideo_resume ::
  "Env \<Rightarrow> thrown + string option \<Rightarrow> thrown + string" where
  "generateSpecFromVideo_resume env answer =
     (case answer of
        Inl e \<Rightarrow> Inl e
      | Inr None \<Rightarrow>
          Inl (TypeError ''Cannot read properties of undefined (reading 'indexOf')'')
      | Inr (Some specResponse) \<Rightarrow>
          (case parseJSON specResponse of
             Inl e \<Rightarrow> Inl e
           | Inr v \<Rightarrow>
               (case get_spec v of
                  Inl e \<Rightarrow> Inl e
                | Inr field \<Rightarrow> append_addendum env field)))"

text \<open>
  \<open>generateCodeFromSpec\<close>, likewise: when the answer is undefined, \<open>parseHTML\<close>
  throws at its \<open>str.indexOf\<close>.
\<close>

definition generateCodeFromSpec_options :: "string \<Rightarrow> GenerateTextOptions" where
  "generateCodeFromSpec_options spec' =
     \<lparr> modelName = ''gemini-2.5-pro-preview-03-25'',
       prompt = spec',
       videoUrl = None,
       temperature = None \<rparr>"

definition generateCodeFromSpec_resume ::
  "Env \<Rightarrow> thrown + string option \<Rightarrow> thrown + string" where
  "generateCodeFromSpec_resume env answer =
     (case answer of
        Inl e \<Rightarrow> Inl e
      | Inr None \<Rightarrow>
          Inl (TypeError ''Cannot read properties of undefined (reading 'indexOf')'')
      | Inr (Some codeResponse) \<Rightarrow>
          Inr (parseHTML codeResponse (CODE_REGION_OPENER env) (CODE_REGION_CLOSER env)))"

text \<open>
  The whole of \<open>generateCodeFromSpec\<close> against the backend of \<open>env\<close>: the code or what
  was thrown, and the requests sent.
\<close>

definition generateCodeFromSpec ::
  "Env \<Rightarrow> string \<Rightarrow> (thrown + string) \<times> GenerateContentParameters list" where
  "generateCodeFromSpec env spec' =
     (case generateText (GEMINI_API_KEY env) (models_generateContent env)
             (generateCodeFromSpec_options spec') of
        (answer, requests) \<Rightarrow> (generateCodeFromSpec_resume env answer, requests))"

text \<open>
  \<open>generateContent\<close>, the effect run on mount, in the three stretches that its two
  \<open>await\<close>s separate. Each stretch gives the state after its updates and, when it
  ends in a backend call, the request sent. In the first branch both pre-seeded
  values are strings, so \<open>or_empty\<close> gives them as they are.
\<close>

definition generateContent_start ::
  "Env \<Rightarrow> ContentContainerProps \<Rightarrow> ContainerState
     \<Rightarrow> ContainerState \<times> GenerateContentParameters option" where
  "generateContent_start env props st =
     (if preSeeded props then
        (st\<lparr> spec := or_empty (preSeededSpec props),
             code := or_empty (preSeededCode props),
             loadingState := ready \<rparr>, None)
      else
        (let st1 = st\<lparr> loadingState := loading_spec, error := None, spec := [], code := [] \<rparr>
         in case generateText_request (GEMINI_API_KEY env)
                   (generateSpecFromVideo_options env (contentBasis props)) of
              Inl e \<Rightarrow> (catch_error e st1, None)
            | Inr request \<Rightarrow> (st1, Some request)))"

definition generateContent_afterSpec ::
  "Env \<Rightarrow> thrown + GenerateContentResponse \<Rightarrow> ContainerState
     \<Rightarrow> ContainerState \<times> GenerateContentParameters option" where
  "generateContent_afterSpec env outcome st =
     (case generateSpecFromVideo_resume env (generateText_response outcome) of
        Inl e \<Rightarrow> (catch_error e st, None)
      | Inr generatedSpec \<Rightarrow>
          (let st1 = st\<lparr> spec := generatedSpec, loadingState := loading_code \<rparr>
           in case generateText_request (GEMINI_API_KEY env)
                     (generateCodeFromSpec_options generatedSpec) of
                Inl e \<Rightarrow> (catch_error e st1, None)
              | Inr request \<Rightarrow> (st1, Some request)))"

definition generateContent_afterCode ::
  "Env \<Rightarrow> thrown + GenerateContentResponse \<Rightarrow> ContainerState \<Rightarrow> ContainerState" where
  "generateContent_afterCode env outcome st =
     (case generateCodeFromSpec_resume env (generateText_response outcome) of
        Inl e \<Rightarrow> catch_error e st
      | Inr generatedCode \<Rightarrow> st\<lparr> code := generatedCode, loadingState := ready \<rparr>)"

text \<open>
  The whole of \<open>generateContent\<close> against the backend of \<open>env\<close>, with nothing else
  touching the state meanwhile: the final state and the requests sent, in order.
\<close>

definition generateContent ::
  "Env \<Rightarrow> ContentContainerProps \<Rightarrow> ContainerState
     \<Rightarrow> ContainerState \<times> GenerateContentParameters list" where
  "generateContent env props st =
     (case generateContent_start env props st of
        (st1, None) \<Rightarrow> (st1, [])
      | (st1, Some request1) \<Rightarrow>
          (case generateContent_afterSpec env (models_generateContent env request1) st1 of
             (st2, None) \<Rightarrow> (st2, [request1])
           | (st2, Some request2) \<Rightarrow>
               (generateContent_afterCode env (models_generateContent env request2) st2,
                [request1, request2])))"

text \<open>Mounting the component: the initial state, then the effect.\<close>

definition mount ::
  "Env \<Rightarrow> ContentContainerProps \<Rightarrow> ContainerState \<times> GenerateContentParameters list" where
  "mount env props = generateContent env props (initialState props)"

text \<open>
  \<open>String.prototype.trim\<close> removes white space and line terminators at both ends;
  these are the ones below 256.
\<close>

definition is_js_whitespace :: "char \<Rightarrow> bool" where
  "is_js_whitespace c \<longleftrightarrow>
     c \<in> {CHR 0x09, CHR 0x0A, CHR 0x0B, CHR 0x0C, CHR 0x0D, CHR 0x20, CHR 0xA0}"

definition trim :: "string \<Rightarrow> string" where
  "trim s = rev (dropWhile is_js_whitespace (rev (dropWhile is_js_whitespace s)))"

definition handleCodeChange :: "string option \<Rightarrow> ContainerState \<Rightarrow> ContainerState" where
  "handleCodeChange v st =
     st\<lparr> code := or_empty v,
         saveMessage := ''HTML updated. Changes will appear in the Render tab.'' \<rparr>"

definition handleSpecEdit :: "ContainerState \<Rightarrow> ContainerState" where
  "handleSpecEdit st = st\<lparr> editedSpec := spec st, isEditingSpec := True \<rparr>"

definition handleSpecCancel :: "ContainerState \<Rightarrow> ContainerState" where
  "handleSpecCancel st = st\<lparr> isEditingSpec := False, editedSpec := [] \<rparr>"

text \<open>\<open>handleSpecSave\<close>, in the two stretches that its \<open>await\<close> separates.\<close>

definition handleSpecSave_start ::
  "Env \<Rightarrow> ContainerState \<Rightarrow> ContainerState \<times> GenerateContentParameters option" where
  "handleSpecSave_start env st =
     (let trimmedEditedSpec = trim (editedSpec st)
      in if trimmedEditedSpec = spec st then
           (st\<lparr> isEditingSpec := False, editedSpec := [] \<rparr>, None)
         else
           (let st1 = st\<lparr> loadingState := loading_code,
                          error := None,
                          spec := trimmedEditedSpec,
                          isEditingSpec := False,
                          activeTabIndex := 1 \<rparr>
            in case generateText_request (GEMINI_API_KEY env)
                      (generateCodeFromSpec_options trimmedEditedSpec) of
                 Inl e \<Rightarrow> (catch_error e st1, None)
               | Inr request \<Rightarrow> (st1, Some request)))"

definition handleSpecSave_afterCode ::
  "Env \<Rightarrow> thrown + GenerateContentResponse \<Rightarrow> ContainerState \<Rightarrow> ContainerState" where
  "handleSpecSave_afterCode env outcome st =
     (case generateCodeFromSpec_resume env (generateText_response outcome) of
        Inl e \<Rightarrow> catch_error e st
      | Inr generatedCode \<Rightarrow> st\<lparr> code := generatedCode, loadingState := ready \<rparr>)"

definition handleSpecSave ::
  "Env \<Rightarrow> ContainerState \<Rightarrow> ContainerState \<times> GenerateContentParameters list" where
  "handleSpecSave env st =
     (case handleSpecSave_start env st of
        (st1, None) \<Rightarrow> (st1, [])
      | (st1, Some request) \<Rightarrow>
          (handleSpecSave_afterCode env (models_generateContent env request) st1, [request]))"

text \<open>
  The scenario of the specification: video reference \<open>V1\<close>, a backend that answers
  the first model with \<open>{"spec":"S1"}\<close> and the second with
  \<open><!DOCTYPE html>CODE1</html>CLOSER\<close>, the closing delimiter being \<open>CLOSER\<close>.
\<close>

definition scenario_response :: "string \<Rightarrow> GenerateContentResponse" where
  "scenario_response t =
     \<lparr> promptFeedback = None,
       candidates = Some [\<lparr> finishReason = Some ''STOP'' \<rparr>],
       response_text = Some t \<rparr>"

definition scenario_env :: Env where
  \<open>scenario_env =
     \<lparr> SPEC_FROM_VIDEO_PROMPT = ''PROMPT'',
       SPEC_ADDENDUM = ''ADDENDUM'',
       CODE_REGION_OPENER = ''OPENER'',
       CODE_REGION_CLOSER = ''CLOSER'',
       GEMINI_API_KEY = Some ''key'',
       models_generateContent =
         (\<lambda>request. if model request = ''gemini-2.0-flash''
                    then Inr (scenario_response ''{"spec":"S1"}'')
                    else Inr (scenario_response ''<!DOCTYPE html>CODE1</html>CLOSER'')),
       Number_toString = (\<lambda>lexeme. lexeme) \<rparr>\<close>

definition scenario_props :: ContentContainerProps where
  "scenario_props = \<lparr> contentBasis = ''V1'', preSeededSpec = None, preSeededCode = None \<rparr>"

text \<open>The scenario's final state, with the spec editor open on the stored spec.\<close>

definition editing_state :: ContainerState where
  "editing_state =
     \<lparr> spec = ''S1ADDENDUM'',
       code = ''<!DOCTYPE html>CODE1</html>'',
       saveMessage = [],
       loadingState = ready,
       error = None,
       isEditingSpec = True,
       editedSpec = ''  S1ADDENDUM  '',
       activeTabIndex = 2 \<rparr>"

text \<open>A backend whose answers all stop for safety.\<close>

definition blocked_env :: Env where
  "blocked_env =
     scenario_env\<lparr> models_generateContent :=
       (\<lambda>request. Inr \<lparr> promptFeedback = None,
                          candidates = Some [\<lparr> finishReason = Some ''SAFETY'' \<rparr>],
                          response_text = Some [] \<rparr>) \<rparr>"

text \<open>A backend whose answers stop normally and have no text part.\<close>

definition textless_env :: Env where
  "textless_env =
     scenario_env\<lparr> models_generateContent :=
       (\<lambda>request. Inr \<lparr> promptFeedback = None,
                          candidates = Some [\<lparr> finishReason = Some ''STOP'' \<rparr>],
                          response_text = None \<rparr>) \<rparr>"

section \<open>App: one component instance per run\<close>

text \<open>
  An entry of the example gallery. Its \<open>spec\<close> and \<open>code\<close> are named \<open>example_spec\<close>
  and \<open>example_code\<close> here, apart from the component's state variables.
\<close>

record Example =
  title :: string
  url :: string
  example_spec :: string
  example_code :: string

text \<open>
  The state variables of \<open>App\<close>; its \<open>videoUrl\<close> is named \<open>app_videoUrl\<close> here, apart
  from the option of \<open>generateText\<close>. \<open>reloadCounter\<close> is a JavaScript number that
  only ever grows by one from 0; it is a natural number here.
\<close>

record AppState =
  app_videoUrl :: string
  urlValidating :: bool
  contentLoading :: bool
  reloadCounter :: nat
  selectedExample :: "Example option"

text \<open>
  A rendered \<open>ContentContainer\<close>: the \<open>key\<close> it was created under, its current
  props and its state.
\<close>

record Instance =
  inst_key :: nat
  inst_props :: ContentContainerProps
  inst_state :: ContainerState

text \<open>
  What is on screen: the state of \<open>App\<close>, the examples of the data context, and
  the \<open>ContentContainer\<close> that is mounted, if one is.
\<close>

record World =
  app :: AppState
  examples :: "Example list"
  mounted :: "Instance option"

text \<open>\<open>PRESEED_CONTENT\<close> is \<open>false\<close>: nothing is selected at the start.\<close>

definition initial_world :: World where
  "initial_world =
     \<lparr> app = \<lparr> app_videoUrl = [], urlValidating = False, contentLoading = False,
               reloadCounter = 0, selectedExample = None \<rparr>,
       examples = [],
       mounted = None \<rparr>"

definition handleExampleSelect :: "Example \<Rightarrow> AppState \<Rightarrow> AppState" where
  "handleExampleSelect example a =
     a\<lparr> app_videoUrl := url example,
        selectedExample := Some example,
        reloadCounter := reloadCounter a + 1 \<rparr>"

definition proceedWithVideo :: "string \<Rightarrow> AppState \<Rightarrow> AppState" where
  "proceedWithVideo u a =
     a\<lparr> app_videoUrl := u,
        reloadCounter := reloadCounter a + 1,
        urlValidating := False \<rparr>"

text \<open>
  \<open>handleSubmit\<close> up to its \<open>await\<close>, given the examples of the data context and
  the value of the input field. \<open>defaultExample\<close> is \<open>examples[0]\<close>; with no examples
  it is undefined, reading its \<open>url\<close> throws, and the updates made before stand.
  \<open>VALIDATE_INPUT_URL\<close> is \<open>true\<close>: a URL that is no example's waits for its
  validation.
\<close>

definition handleSubmit_start :: "Example list \<Rightarrow> string \<Rightarrow> AppState \<Rightarrow> AppState" where
  "handleSubmit_start exs raw a =
     (let inputValue = trim raw
      in if \<not> truthy inputValue then a
         else if urlValidating a then a
         else
           (let a1 = a\<lparr> urlValidating := True,
                         app_videoUrl := [],
                         contentLoading := False,
                         selectedExample := None \<rparr>
            in case exs of
                 [] \<Rightarrow> a1
               | defaultExample # _ \<Rightarrow>
                   if list_ex (\<lambda>example. url example = inputValue) (defaultExample # exs)
                   then proceedWithVideo inputValue a1
                   else a1))"

text \<open>\<open>handleSubmit\<close> after \<open>validateYoutubeUrl\<close> has answered for \<open>inputValue\<close>.\<close>

definition handleSubmit_validated :: "string \<Rightarrow> bool \<Rightarrow> AppState \<Rightarrow> AppState" where
  "handleSubmit_validated inputValue isValid a =
     (if isValid then proceedWithVideo inputValue a else a\<lparr> urlValidating := False \<rparr>)"

text \<open>The input field's \<open>onChange\<close>.\<close>

definition input_onChange :: "AppState \<Rightarrow> AppState" where
  "input_onChange a = a\<lparr> app_videoUrl := [], selectedExample := None \<rparr>"

text \<open>The props \<open>App\<close> passes to \<open>ContentContainer\<close>.\<close>

definition container_props :: "AppState \<Rightarrow> ContentContainerProps" where
  "container_props a =
     \<lparr> contentBasis = app_videoUrl a,
       preSeededSpec = map_option example_spec (selectedExample a),
       preSeededCode = map_option example_code (selectedExample a) \<rparr>"

definition isLoading :: "ContainerState \<Rightarrow> bool" where
  "isLoading st \<longleftrightarrow> loadingState st = loading_spec \<or> loadingState st = loading_code"

text \<open>
  A newly created instance under the key \<open>reloadCounter\<close>: the initial state, then
  the first stretch of the effect.
\<close>

definition fresh_instance :: "Env \<Rightarrow> AppState \<Rightarrow> Instance" where
  "fresh_instance env a =
     \<lparr> inst_key = reloadCounter a,
       inst_props = container_props a,
       inst_state = fst (generateContent_start env (container_props a)
                           (initialState (container_props a))) \<rparr>"

text \<open>
  React's rendering of \<open>videoUrl ? <ContentContainer key={reloadCounter} ... /> : ...\<close>.
  With no video URL nothing is mounted. An instance stays only while the key is the
  one it was created under; under any other key a new instance replaces it. An
  instance that stays and meets changed props runs its effect again. The effect
  that reports the loading state runs after every rendering.
\<close>

definition render :: "Env \<Rightarrow> World \<Rightarrow> World" where
  "render env w =
     (let a = app w
      in if \<not> truthy (app_videoUrl a) then w\<lparr> mounted := None \<rparr>
         else
           (let inst =
                  (case mounted w of
                     None \<Rightarrow> fresh_instance env a
                   | Some i \<Rightarrow>
                       if inst_key i \<noteq> reloadCounter a then fresh_instance env a
                       else if inst_props i = container_props a then i
                       else i\<lparr> inst_props := container_props a,
                              inst_state := fst (generateContent_start env (container_props a)
                                                   (inst_state i)) \<rparr>)
            in w\<lparr> app := a\<lparr> contentLoading := isLoading (inst_state inst) \<rparr>,
                   mounted := Some inst \<rparr>))"

text \<open>Which \<open>await\<close> of a component an answer of the backend resumes.\<close>

datatype awaited = AwaitSpec | AwaitCode | AwaitSave

text \<open>
  What happens: the user acts on \<open>App\<close> or on the mounted component, the examples
  arrive, the URL validation answers, or the backend answers a call made by the
  instance created under some key. The backend's calls are not cancelled, so an
  answer may be for an instance that is gone.
\<close>

datatype event =
    ExamplesLoaded "Example list"
  | ExampleSelect Example
  | Submit string
  | Validated string bool
  | InputChange
  | SpecEdit
  | SpecEditorChange "string option"
  | SpecSave
  | SpecCancel
  | CodeChange "string option"
  | Answered nat awaited "thrown + GenerateContentResponse"

text \<open>A state update of the mounted component.\<close>

definition on_mounted :: "(ContainerState \<Rightarrow> ContainerState) \<Rightarrow> World \<Rightarrow> World" where
  "on_mounted f w =
     (case mounted w of
        None \<Rightarrow> w
      | Some i \<Rightarrow> w\<lparr> mounted := Some (i\<lparr> inst_state := f (inst_state i) \<rparr>) \<rparr>)"

text \<open>
  The stretch of code an answer resumes, as a state update of the component whose
  call it was.
\<close>

fun resume :: "Env \<Rightarrow> awaited \<Rightarrow> thrown + GenerateContentResponse
                 \<Rightarrow> ContainerState \<Rightarrow> ContainerState" where
  "resume env AwaitSpec outcome st = fst (generateContent_afterSpec env outcome st)"
| "resume env AwaitCode outcome st = generateContent_afterCode env outcome st"
| "resume env AwaitSave outcome st = handleSpecSave_afterCode env outcome st"

text \<open>
  The state updates of a resumed stretch reach the instance that made the call.
  When that instance is no longer mounted they change nothing: a state setter of an
  unmounted component has no effect, and the instance mounted now has state of its
  own.
\<close>

definition deliver :: "Env \<Rightarrow> nat \<Rightarrow> awaited \<Rightarrow> thrown + GenerateContentResponse
                          \<Rightarrow> World \<Rightarrow> World" where
  "deliver env k aw outcome w =
     (case mounted w of
        None \<Rightarrow> w
      | Some i \<Rightarrow>
          if inst_key i = k
          then w\<lparr> mounted := Some (i\<lparr> inst_state := resume env aw outcome (inst_state i) \<rparr>) \<rparr>
          else w)"

fun handle :: "Env \<Rightarrow> event \<Rightarrow> World \<Rightarrow> World" where
  "handle env (ExamplesLoaded exs) w = w\<lparr> examples := exs \<rparr>"
| "handle env (ExampleSelect example) w = w\<lparr> app := handleExampleSelect example (app w) \<rparr>"
| "handle env (Submit raw) w = w\<lparr> app := handleSubmit_start (examples w) raw (app w) \<rparr>"
| "handle env (Validated inputValue isValid) w =
     w\<lparr> app := handleSubmit_validated inputValue isValid (app w) \<rparr>"
| "handle env InputChange w = w\<lparr> app := input_onChange (app w) \<rparr>"
| "handle env SpecEdit w = on_mounted handleSpecEdit w"
| "handle env (SpecEditorChange v) w = on_mounted (\<lambda>st. st\<lparr> editedSpec := or_empty v \<rparr>) w"
| "handle env SpecSave w = on_mounted (\<lambda>st. fst (handleSpecSave_start env st)) w"
| "handle env SpecCancel w = on_mounted handleSpecCancel w"
| "handle env (CodeChange v) w = on_mounted (handleCodeChange v) w"
| "handle env (Answered k aw outcome) w = deliver env k aw outcome w"

text \<open>One event: its handler, then the rendering.\<close>

definition step :: "Env \<Rightarrow> event \<Rightarrow> World \<Rightarrow> World" where
  "step env e w = render env (handle env e w)"

fun run_events :: "Env \<Rightarrow> event list \<Rightarrow> World \<Rightarrow> World" where
  "run_events env [] w = w"
| "run_events env (e # es) w = run_events env es (step env e w)"

text \<open>
  A world as the rendering leaves it: with no video URL nothing is mounted;
  otherwise an instance is, its key is the current \<open>reloadCounter\<close>, its props are
  the current ones, and \<open>contentLoading\<close> reports its loading state.
\<close>

definition rendered :: "World \<Rightarrow> bool" where
  "rendered w =
     (if \<not> truthy (app_videoUrl (app w)) then mounted w = None
      else (case mounted w of
              None \<Rightarrow> False
            | Some i \<Rightarrow> inst_key i = reloadCounter (app w)
                       \<and> inst_props i = container_props (app w)
                       \<and> contentLoading (app w) = isLoading (inst_state i)))"

text \<open>What the user sees of a world: the state of \<open>App\<close> and the mounted component.\<close>

definition visible :: "World \<Rightarrow> AppState \<times> Instance option" where
  "visible w = (app w, mounted w)"

text \<open>Two examples, for the scenarios.\<close>

definition example1 :: Example where
  "example1 = \<lparr> title = ''One'', url = ''https://v/1'', example_spec = ''SPEC1'',
                 example_code = ''CODE1'' \<rparr>"

definition example2 :: Example where
  "example2 = \<lparr> title = ''Two'', url = ''https://v/2'', example_spec = [],
                 example_code = [] \<rparr>"

section \<open>The string functions meet their specification\<close>

text \<open>
  \<open>indexOf\<close> returns the least index of an occurrence and \<open>lastIndexOf\<close> the
  greatest, each \<open>-1\<close> exactly when there is none.
\<close>

lemma indexOf_from_none:
  "(\<forall>i\<le>length s. \<not> prefix n (drop i s)) \<Longrightarrow> indexOf_from s n k = - 1"
proof (induction s arbitrary: k)
  case Nil
  then show ?case by auto
next
  case (Cons c cs)
  from Cons.prems have h0: "\<not> prefix n (c # cs)" by (metis drop0 le0)
  have "\<forall>i\<le>length cs. \<not> prefix n (drop i cs)"
  proof (intro allI impI)
    fix i assume "i \<le> length cs"
    then have "Suc i \<le> length (c # cs)" by simp
    with Cons.prems have "\<not> prefix n (drop (Suc i) (c # cs))" by blast
    then show "\<not> prefix n (drop i cs)" by simp
  qed
  with Cons.IH h0 show ?case by simp
qed

lemma indexOf_from_first:
  "i \<le> length s \<Longrightarrow> prefix n (drop i s) \<Longrightarrow> (\<forall>j<i. \<not> prefix n (drop j s))
     \<Longrightarrow> indexOf_from s n k = int (k + i)"
proof (induction s arbitrary: k i)
  case Nil
  then show ?case by auto
next
  case (Cons c cs)
  show ?case
  proof (cases i)
    case 0
    with Cons.prems show ?thesis by simp
  next
    case (Suc i')
    with Cons.prems have h0: "\<not> prefix n (c # cs)" by (metis drop0 zero_less_Suc)
    have a: "i' \<le> length cs" using Cons.prems Suc by simp
    have b: "prefix n (drop i' cs)" using Cons.prems Suc by simp
    have c: "\<forall>j<i'. \<not> prefix n (drop j cs)"
    proof (intro allI impI)
      fix j assume "j < i'"
      then have "Suc j < i" using Suc by simp
      with Cons.prems have "\<not> prefix n (drop (Suc j) (c # cs))" by blast
      then show "\<not> prefix n (drop j cs)" by simp
    qed
    from Cons.IH[OF a b c, of "Suc k"] h0 Suc show ?thesis by simp
  qed
qed

lemma lastIndexOf_from_none:
  "(\<forall>i\<le>length s. \<not> prefix n (drop i s)) \<Longrightarrow> lastIndexOf_from s n k best = best"
proof (induction s arbitrary: k best)
  case Nil
  then show ?case by auto
next
  case (Cons c cs)
  from Cons.prems have h0: "\<not> prefix n (c # cs)" by (metis drop0 le0)
  have "\<forall>i\<le>length cs. \<not> prefix n (drop i cs)"
  proof (intro allI impI)
    fix i assume "i \<le> length cs"
    then have "Suc i \<le> length (c # cs)" by simp
    with Cons.prems have "\<not> prefix n (drop (Suc i) (c # cs))" by blast
    then show "\<not> prefix n (drop i cs)" by simp
  qed
  with Cons.IH h0 show ?case by simp
qed

lemma lastIndexOf_from_last:
  "i \<le> length s \<Longrightarrow> prefix n (drop i s)
     \<Longrightarrow> (\<forall>j. i < j \<and> j \<le> length s \<longrightarrow> \<not> prefix n (drop j s))
     \<Longrightarrow> lastIndexOf_from s n k best = int (k + i)"
proof (induction s arbitrary: k i best)
  case Nil
  then show ?case by auto
next
  case (Cons c cs)
  show ?case
  proof (cases i)
    case 0
    have "\<forall>j\<le>length cs. \<not> prefix n (drop j cs)"
    proof (intro allI impI)
      fix j assume "j \<le> length cs"
      then have "i < Suc j \<and> Suc j \<le> length (c # cs)" using 0 by simp
      with Cons.prems have "\<not> prefix n (drop (Suc j) (c # cs))" by blast
      then show "\<not> prefix n (drop j cs)" by simp
    qed
    then have "lastIndexOf_from cs n (Suc k) (int k) = int k"
      by (rule lastIndexOf_from_none)
    with Cons.prems 0 show ?thesis by simp
  next
    case (Suc i')
    have a: "i' \<le> length cs" using Cons.prems Suc by simp
    have b: "prefix n (drop i' cs)" using Cons.prems Suc by simp
    have c: "\<forall>j. i' < j \<and> j \<le> length cs \<longrightarrow> \<not> prefix n (drop j cs)"
    proof (intro allI impI)
      fix j assume "i' < j \<and> j \<le> length cs"
      then have "i < Suc j \<and> Suc j \<le> length (c # cs)" using Suc by simp
      with Cons.prems have "\<not> prefix n (drop (Suc j) (c # cs))" by blast
      then show "\<not> prefix n (drop j cs)" by simp
    qed
    from Cons.IH[OF a b c, of "Suc k"] Suc show ?thesis by simp
  qed
qed

lemma indexOf_absent:
  "(\<forall>i. \<not> occurs_at n s i) \<Longrightarrow> indexOf s n = - 1"
  unfolding indexOf_def occurs_at_def by (rule indexOf_from_none) simp

lemma indexOf_first:
  "occurs_at n s i \<Longrightarrow> (\<forall>j<i. \<not> occurs_at n s j) \<Longrightarrow> indexOf s n = int i"
  unfolding indexOf_def occurs_at_def
  using indexOf_from_first[of i s n 0] by auto

lemma lastIndexOf_absent:
  "(\<forall>i. \<not> occurs_at n s i) \<Longrightarrow> lastIndexOf s n = - 1"
  unfolding lastIndexOf_def occurs_at_def by (rule lastIndexOf_from_none) simp

lemma lastIndexOf_last:
  "occurs_at n s i \<Longrightarrow> (\<forall>j>i. \<not> occurs_at n s j) \<Longrightarrow> lastIndexOf s n = int i"
  unfolding lastIndexOf_def occurs_at_def
  using lastIndexOf_from_last[of i s n 0 "- 1"] by auto

lemma occurs_at_append: "occurs_at n (pre @ n @ post) (length pre)"
  by (simp add: occurs_at_def)

lemma occurs_at_iff:
  "occurs_at n s i \<longleftrightarrow> (\<exists>pre post. s = pre @ n @ post \<and> length pre = i)"
proof
  assume h: "occurs_at n s i"
  then obtain post where "drop i s = n @ post" by (auto simp: occurs_at_def prefix_def)
  then have "s = take i s @ n @ post" by (metis append_take_drop_id)
  moreover have "length (take i s) = i" using h by (simp add: occurs_at_def)
  ultimately show "\<exists>pre post. s = pre @ n @ post \<and> length pre = i" by blast
next
  assume "\<exists>pre post. s = pre @ n @ post \<and> length pre = i"
  then show "occurs_at n s i" using occurs_at_append by blast
qed

lemma indexOf_present:
  assumes "occurs_at n s i"
  shows "\<exists>m\<le>i. indexOf s n = int m \<and> occurs_at n s m \<and> (\<forall>j<m. \<not> occurs_at n s j)"
proof -
  define m where "m = (LEAST j. occurs_at n s j)"
  have 1: "occurs_at n s m" unfolding m_def using assms by (rule LeastI)
  have 2: "m \<le> i" unfolding m_def using assms by (rule Least_le)
  have 3: "\<forall>j<m. \<not> occurs_at n s j" unfolding m_def using not_less_Least by blast
  from indexOf_first[OF 1 3] 1 2 3 show ?thesis by blast
qed

lemma lastIndexOf_present:
  assumes "occurs_at n s i"
  shows "\<exists>m\<ge>i. lastIndexOf s n = int m \<and> occurs_at n s m \<and> (\<forall>j>m. \<not> occurs_at n s j)"
proof -
  define m where "m = (GREATEST j. occurs_at n s j)"
  have b: "\<forall>j. occurs_at n s j \<longrightarrow> j \<le> length s" by (simp add: occurs_at_def)
  have 1: "occurs_at n s m" unfolding m_def using assms b by (metis GreatestI_nat)
  have 2: "i \<le> m" unfolding m_def using assms b by (metis Greatest_le_nat)
  have 3: "\<forall>j>m. \<not> occurs_at n s j" unfolding m_def using b
    by (metis Greatest_le_nat not_le)
  from lastIndexOf_last[OF 1 3] 1 2 3 show ?thesis by blast
qed


lemma indexOf_eq_iff:
  "indexOf s n = int m \<longleftrightarrow> occurs_at n s m \<and> (\<forall>j<m. \<not> occurs_at n s j)"
proof
  assume h: "indexOf s n = int m"
  have "\<exists>i. occurs_at n s i"
  proof (rule ccontr)
    assume "\<not> (\<exists>i. occurs_at n s i)"
    then have "indexOf s n = - 1" using indexOf_absent by blast
    with h show False by simp
  qed
  then obtain i where "occurs_at n s i" ..
  from indexOf_present[OF this] h
  show "occurs_at n s m \<and> (\<forall>j<m. \<not> occurs_at n s j)" by auto
next
  assume "occurs_at n s m \<and> (\<forall>j<m. \<not> occurs_at n s j)"
  then show "indexOf s n = int m" using indexOf_first by blast
qed

lemma indexOf_absent_iff:
  "indexOf s n = - 1 \<longleftrightarrow> (\<forall>i. \<not> occurs_at n s i)"
proof
  assume h: "indexOf s n = - 1"
  show "\<forall>i. \<not> occurs_at n s i"
  proof (intro allI notI)
    fix i assume "occurs_at n s i"
    from indexOf_present[OF this] h show False by auto
  qed
qed (rule indexOf_absent)

lemma lastIndexOf_eq_iff:
  "lastIndexOf s n = int m \<longleftrightarrow> occurs_at n s m \<and> (\<forall>j>m. \<not> occurs_at n s j)"
proof
  assume h: "lastIndexOf s n = int m"
  have "\<exists>i. occurs_at n s i"
  proof (rule ccontr)
    assume "\<not> (\<exists>i. occurs_at n s i)"
    then have "lastIndexOf s n = - 1" using lastIndexOf_absent by blast
    with h show False by simp
  qed
  then obtain i where "occurs_at n s i" ..
  from lastIndexOf_present[OF this] h
  show "occurs_at n s m \<and> (\<forall>j>m. \<not> occurs_at n s j)" by auto
next
  assume "occurs_at n s m \<and> (\<forall>j>m. \<not> occurs_at n s j)"
  then show "lastIndexOf s n = int m" using lastIndexOf_last by blast
qed

lemma lastIndexOf_absent_iff:
  "lastIndexOf s n = - 1 \<longleftrightarrow> (\<forall>i. \<not> occurs_at n s i)"
proof
  assume h: "lastIndexOf s n = - 1"
  show "\<forall>i. \<not> occurs_at n s i"
  proof (intro allI notI)
    fix i assume "occurs_at n s i"
    from lastIndexOf_present[OF this] h show False by auto
  qed
qed (rule lastIndexOf_absent)

lemma substring_clamped_end:
  "0 \<le> start \<Longrightarrow> start \<le> int (length s) \<Longrightarrow> end' \<le> 0
     \<Longrightarrow> substring s start end' = take (nat start) s"
  by (simp add: substring_def Let_def min_def max_def)

lemma substring_ordered:
  "0 \<le> start \<Longrightarrow> start \<le> end' \<Longrightarrow> end' \<le> int (length s)
     \<Longrightarrow> substring s start end' = take (nat (end' - start)) (drop (nat start) s)"
  by (simp add: substring_def Let_def min_def max_def)

section \<open>Properties of the HTML extraction\<close>

text \<open>
  C5. On the text \<open>prefix <!DOCTYPE html><html></html> END\<close> with opener \<open>X\<close> and
  closer \<open>END\<close>, \<open>parseHTML\<close> returns \<open><!DOCTYPE html><html></html> \<close> with the
  trailing blank: the result begins at the marker and stops at the index where the
  last occurrence of the closer begins.
\<close>

theorem parseHTML_example:
  "parseHTML ''prefix <!DOCTYPE html><html></html> END'' ''X'' ''END''
     = ''<!DOCTYPE html><html></html> ''"
  by (simp add: parseHTML_def indexOf_def lastIndexOf_def substring_def DOCTYPE_def)

text \<open>
  C9. \<open>parseHTML\<close> is a total function into strings, with no error result. When the
  closer occurs nowhere in the text, the result is the part of the text strictly
  before the first \<open><!DOCTYPE html>\<close>; it is empty when the marker is absent as
  well, and when the marker is at index 0.
\<close>

theorem parseHTML_closer_absent:
  assumes "\<forall>i. \<not> occurs_at closer str i"
  shows "(\<forall>pre post. str = pre @ DOCTYPE @ post \<and> (\<forall>j<length pre. \<not> occurs_at DOCTYPE str j)
            \<longrightarrow> parseHTML str opener closer = pre)
       \<and> ((\<forall>i. \<not> occurs_at DOCTYPE str i) \<longrightarrow> parseHTML str opener closer = [])
       \<and> (occurs_at DOCTYPE str 0 \<longrightarrow> parseHTML str opener closer = [])"
proof -
  have e: "lastIndexOf str closer = - 1" using assms by (rule lastIndexOf_absent)
  have first: "parseHTML str opener closer = take m str"
    if "occurs_at DOCTYPE str m" "\<forall>j<m. \<not> occurs_at DOCTYPE str j" for m
  proof -
    have s: "indexOf str DOCTYPE = int m" using that by (rule indexOf_first)
    have "m \<le> length str" using that(1) by (simp add: occurs_at_def)
    then show ?thesis
      by (simp add: parseHTML_def Let_def e s substring_clamped_end)
  qed
  have a: "parseHTML str opener closer = pre"
    if "str = pre @ DOCTYPE @ post" "\<forall>j<length pre. \<not> occurs_at DOCTYPE str j" for pre post
  proof -
    have "occurs_at DOCTYPE str (length pre)" using that(1) occurs_at_append by blast
    from first[OF this that(2)] that(1) show ?thesis by simp
  qed
  have b: "parseHTML str opener closer = []" if "\<forall>i. \<not> occurs_at DOCTYPE str i"
  proof -
    have "indexOf str DOCTYPE = - 1" using that by (rule indexOf_absent)
    then show ?thesis by (simp add: parseHTML_def Let_def e substring_def)
  qed
  have c: "parseHTML str opener closer = []" if "occurs_at DOCTYPE str 0"
    using first[OF that] by simp
  from a b c show ?thesis by blast
qed

theorem parseHTML_closer_absent_witness:
  "lastIndexOf ''ab<!DOCTYPE html>cd'' ''END'' = - 1
   \<and> indexOf ''ab<!DOCTYPE html>cd'' DOCTYPE = 2
   \<and> parseHTML ''ab<!DOCTYPE html>cd'' ''X'' ''END'' = ''ab''
   \<and> indexOf ''abcd'' DOCTYPE = - 1
   \<and> parseHTML ''abcd'' ''X'' ''END'' = []
   \<and> indexOf ''<!DOCTYPE html>cd'' DOCTYPE = 0
   \<and> parseHTML ''<!DOCTYPE html>cd'' ''X'' ''END'' = []"
proof -
  have l1: "lastIndexOf ''ab<!DOCTYPE html>cd'' ''END'' = - 1"
    by (simp add: lastIndexOf_def)
  have i1: "indexOf ''ab<!DOCTYPE html>cd'' DOCTYPE = int 2"
    by (simp add: indexOf_def DOCTYPE_def)
  have h1: "\<forall>i. \<not> occurs_at ''END'' ''ab<!DOCTYPE html>cd'' i"
    using l1 lastIndexOf_absent_iff by blast
  have f1: "\<forall>j<length ''ab''. \<not> occurs_at DOCTYPE ''ab<!DOCTYPE html>cd'' j"
    using i1 unfolding indexOf_eq_iff by simp
  have s1: "''ab<!DOCTYPE html>cd'' = ''ab'' @ DOCTYPE @ ''cd''"
    by (simp add: DOCTYPE_def)
  have r1: "parseHTML ''ab<!DOCTYPE html>cd'' ''X'' ''END'' = ''ab''"
    using parseHTML_closer_absent[OF h1, of "''X''"] s1 f1 by blast
  have l2: "lastIndexOf ''abcd'' ''END'' = - 1" by (simp add: lastIndexOf_def)
  have i2: "indexOf ''abcd'' DOCTYPE = - 1" by (simp add: indexOf_def DOCTYPE_def)
  have h2: "\<forall>i. \<not> occurs_at ''END'' ''abcd'' i"
    using l2 lastIndexOf_absent_iff by blast
  have g2: "\<forall>i. \<not> occurs_at DOCTYPE ''abcd'' i"
    using i2 indexOf_absent_iff by blast
  have r2: "parseHTML ''abcd'' ''X'' ''END'' = []"
    using parseHTML_closer_absent[OF h2, of "''X''"] g2 by blast
  have l3: "lastIndexOf ''<!DOCTYPE html>cd'' ''END'' = - 1" by (simp add: lastIndexOf_def)
  have i3: "indexOf ''<!DOCTYPE html>cd'' DOCTYPE = int 0"
    by (simp add: indexOf_def DOCTYPE_def)
  have h3: "\<forall>i. \<not> occurs_at ''END'' ''<!DOCTYPE html>cd'' i"
    using l3 lastIndexOf_absent_iff by blast
  have g3: "occurs_at DOCTYPE ''<!DOCTYPE html>cd'' 0"
    using i3 unfolding indexOf_eq_iff by simp
  have r3: "parseHTML ''<!DOCTYPE html>cd'' ''X'' ''END'' = []"
    using parseHTML_closer_absent[OF h3, of "''X''"] g3 by blast
  from l1 i1 r1 i2 r2 i3 r3 show ?thesis by simp
qed

section \<open>Properties of the response validation\<close>

lemma truthy_value_None: "truthy_value v = None \<longleftrightarrow> \<not> truthy_opt v"
  by (simp add: truthy_value_def truthy_opt_def split: option.splits)

lemma truthy_value_None_arg: "truthy_value None = None"
  by (simp add: truthy_value_def)

lemma truthy_value_Some: "truthy_value (Some s) = (if s = [] then None else Some s)"
  by (simp add: truthy_value_def truthy_def)

text \<open>
  C2. With a credential configured, for every response the backend returns,
  \<open>generateText\<close> checks in this order and fails at the first condition that holds:
  a reported block reason (the message includes it); a missing or empty candidate
  list; a finish reason of the first candidate that is present and not \<open>STOP\<close> (a
  message of its own for \<open>SAFETY\<close>, otherwise one naming the reason). Otherwise it
  returns the response's text. The four messages are pairwise different, and the
  one request is sent in every case.
\<close>

theorem generateText_validation:
  assumes req: "generateText_request apiKey options = Inr request"
    and resp: "call request = Inr r"
  shows "(\<forall>reason. prompt_blockReason r = Some reason \<and> reason \<noteq> [] \<longrightarrow>
            fst (generateText apiKey call options)
              = Inl (Error (''Content generation failed: Prompt blocked (reason: ''
                              @ reason @ '')'')))
       \<and> (\<not> truthy_opt (prompt_blockReason r)
            \<and> (candidates r = None \<or> candidates r = Some []) \<longrightarrow>
            fst (generateText apiKey call options)
              = Inl (Error ''Content generation failed: No candidates returned.''))
       \<and> (\<forall>c cs reason. \<not> truthy_opt (prompt_blockReason r)
            \<and> candidates r = Some (c # cs)
            \<and> finishReason c = Some reason \<and> reason \<noteq> [] \<and> reason \<noteq> FinishReason_STOP \<longrightarrow>
            fst (generateText apiKey call options)
              = Inl (Error (if reason = FinishReason_SAFETY
                  then ''Content generation failed: Response blocked due to safety settings.''
                  else ''Content generation failed: Stopped due to '' @ reason @ ''.'')))
       \<and> (\<forall>c cs. \<not> truthy_opt (prompt_blockReason r)
            \<and> candidates r = Some (c # cs)
            \<and> (finishReason c = None \<or> finishReason c = Some []
                 \<or> finishReason c = Some FinishReason_STOP) \<longrightarrow>
            fst (generateText apiKey call options) = Inr (response_text r))
       \<and> (\<forall>reason reason'.
            distinct [''Content generation failed: Prompt blocked (reason: '' @ reason @ '')'',
                      ''Content generation failed: No candidates returned.'',
                      ''Content generation failed: Response blocked due to safety settings.'',
                      ''Content generation failed: Stopped due to '' @ reason' @ ''.''])
       \<and> snd (generateText apiKey call options) = [request]"
proof -
  have g: "generateText apiKey call options = (generateText_response (Inr r), [request])"
    by (simp add: generateText_def req resp)
  have a: "generateText_response (Inr r)
             = Inl (Error (''Content generation failed: Prompt blocked (reason: ''
                             @ reason @ '')''))"
    if "prompt_blockReason r = Some reason" "reason \<noteq> []" for reason
    using that by (simp add: generateText_response_def truthy_value_Some truthy_value_None_arg iffD2[OF truthy_value_None])
  have b: "generateText_response (Inr r)
             = Inl (Error ''Content generation failed: No candidates returned.'')"
    if "\<not> truthy_opt (prompt_blockReason r)" "candidates r = None \<or> candidates r = Some []"
    using that by (auto simp add: generateText_response_def truthy_value_Some truthy_value_None_arg iffD2[OF truthy_value_None])
  have c: "generateText_response (Inr r)
             = Inl (Error (if reason = FinishReason_SAFETY
                  then ''Content generation failed: Response blocked due to safety settings.''
                  else ''Content generation failed: Stopped due to '' @ reason @ ''.''))"
    if "\<not> truthy_opt (prompt_blockReason r)" "candidates r = Some (c # cs)"
       "finishReason c = Some reason" "reason \<noteq> []" "reason \<noteq> FinishReason_STOP"
    for c cs reason
    using that by (simp add: generateText_response_def truthy_value_Some truthy_value_None_arg iffD2[OF truthy_value_None])
  have d: "generateText_response (Inr r) = Inr (response_text r)"
    if "\<not> truthy_opt (prompt_blockReason r)" "candidates r = Some (c # cs)"
       "finishReason c = None \<or> finishReason c = Some []
          \<or> finishReason c = Some FinishReason_STOP"
    for c cs
    using that by (auto simp add: generateText_response_def truthy_value_Some truthy_value_None_arg iffD2[OF truthy_value_None])
  have e: "distinct [''Content generation failed: Prompt blocked (reason: '' @ reason @ '')'',
                     ''Content generation failed: No candidates returned.'',
                     ''Content generation failed: Response blocked due to safety settings.'',
                     ''Content generation failed: Stopped due to '' @ reason' @ ''.'']"
    for reason reason' :: string
    by simp
  show ?thesis
    unfolding g fst_conv snd_conv using a b c d e by blast
qed

theorem generateText_validation_witness:
  "fst (generateText (Some ''k'')
          (\<lambda>_. Inr \<lparr> promptFeedback = Some \<lparr> blockReason = Some ''OTHER'' \<rparr>,
                       candidates = None, response_text = Some ''t'' \<rparr>)
          \<lparr> modelName = ''m'', prompt = ''p'', videoUrl = None, temperature = None \<rparr>)
     = Inl (Error ''Content generation failed: Prompt blocked (reason: OTHER)'')
   \<and> fst (generateText (Some ''k'')
          (\<lambda>_. Inr \<lparr> promptFeedback = None, candidates = Some [], response_text = Some ''t'' \<rparr>)
          \<lparr> modelName = ''m'', prompt = ''p'', videoUrl = None, temperature = None \<rparr>)
     = Inl (Error ''Content generation failed: No candidates returned.'')
   \<and> fst (generateText (Some ''k'')
          (\<lambda>_. Inr \<lparr> promptFeedback = None,
                       candidates = Some [\<lparr> finishReason = Some ''SAFETY'' \<rparr>],
                       response_text = Some ''t'' \<rparr>)
          \<lparr> modelName = ''m'', prompt = ''p'', videoUrl = None, temperature = None \<rparr>)
     = Inl (Error ''Content generation failed: Response blocked due to safety settings.'')
   \<and> fst (generateText (Some ''k'')
          (\<lambda>_. Inr \<lparr> promptFeedback = None,
                       candidates = Some [\<lparr> finishReason = Some ''MAX_TOKENS'' \<rparr>],
                       response_text = Some ''t'' \<rparr>)
          \<lparr> modelName = ''m'', prompt = ''p'', videoUrl = None, temperature = None \<rparr>)
     = Inl (Error ''Content generation failed: Stopped due to MAX_TOKENS.'')
   \<and> fst (generateText (Some ''k'')
          (\<lambda>_. Inr \<lparr> promptFeedback = None,
                       candidates = Some [\<lparr> finishReason = Some ''STOP'' \<rparr>],
                       response_text = Some ''t'' \<rparr>)
          \<lparr> modelName = ''m'', prompt = ''p'', videoUrl = None, temperature = None \<rparr>)
     = Inr (Some ''t'')"
proof -
  let ?o = "\<lparr> modelName = ''m'', prompt = ''p'', videoUrl = None, temperature = None \<rparr>"
  let ?q = "\<lparr> model = ''m'', parts = [TextPart ''p''], config_temperature = 3 / 4 \<rparr>"
  have q: "generateText_request (Some ''k'') ?o = Inr ?q"
    by (simp add: generateText_request_def truthy_opt_def truthy_def)
  let ?r1 = "\<lparr> promptFeedback = Some \<lparr> blockReason = Some ''OTHER'' \<rparr>,
               candidates = None, response_text = Some ''t'' \<rparr>"
  let ?r2 = "\<lparr> promptFeedback = None, candidates = Some [], response_text = Some ''t'' \<rparr>"
  let ?r3 = "\<lparr> promptFeedback = None,
               candidates = Some [\<lparr> finishReason = Some ''SAFETY'' \<rparr>],
               response_text = Some ''t'' \<rparr>"
  let ?r4 = "\<lparr> promptFeedback = None,
               candidates = Some [\<lparr> finishReason = Some ''MAX_TOKENS'' \<rparr>],
               response_text = Some ''t'' \<rparr>"
  let ?r5 = "\<lparr> promptFeedback = None,
               candidates = Some [\<lparr> finishReason = Some ''STOP'' \<rparr>],
               response_text = Some ''t'' \<rparr>"
  have n: "\<not> truthy_opt (prompt_blockReason ?r2)" "\<not> truthy_opt (prompt_blockReason ?r3)"
    "\<not> truthy_opt (prompt_blockReason ?r4)" "\<not> truthy_opt (prompt_blockReason ?r5)"
    by (simp_all add: prompt_blockReason_def truthy_opt_def)
  have 1: "fst (generateText (Some ''k'') (\<lambda>_. Inr ?r1) ?o)
             = Inl (Error ''Content generation failed: Prompt blocked (reason: OTHER)'')"
    using generateText_validation[OF q, of "\<lambda>_. Inr ?r1" ?r1]
    by (simp add: prompt_blockReason_def)
  have 2: "fst (generateText (Some ''k'') (\<lambda>_. Inr ?r2) ?o)
             = Inl (Error ''Content generation failed: No candidates returned.'')"
    using generateText_validation[OF q, of "\<lambda>_. Inr ?r2" ?r2] n(1) by simp
  have 3: "fst (generateText (Some ''k'') (\<lambda>_. Inr ?r3) ?o)
             = Inl (Error ''Content generation failed: Response blocked due to safety settings.'')"
    using generateText_validation[OF q, of "\<lambda>_. Inr ?r3" ?r3] n(2)
    by (simp add: FinishReason_STOP_def FinishReason_SAFETY_def)
  have 4: "fst (generateText (Some ''k'') (\<lambda>_. Inr ?r4) ?o)
             = Inl (Error ''Content generation failed: Stopped due to MAX_TOKENS.'')"
    using generateText_validation[OF q, of "\<lambda>_. Inr ?r4" ?r4] n(3)
    by (simp add: FinishReason_STOP_def FinishReason_SAFETY_def)
  have 5: "fst (generateText (Some ''k'') (\<lambda>_. Inr ?r5) ?o) = Inr (Some ''t'')"
    using generateText_validation[OF q, of "\<lambda>_. Inr ?r5" ?r5] n(4)
    by (simp add: FinishReason_STOP_def)
  from 1 2 3 4 5 show ?thesis by blast
qed

section \<open>Properties of the JSON extraction\<close>

text \<open>Searching for a single symbol.\<close>

lemma occurs_at_single: "occurs_at [c] s i \<longleftrightarrow> i < length s \<and> s ! i = c"
proof (cases "i < length s")
  case True
  then have "drop i s = s ! i # drop (Suc i) s" by (simp add: Cons_nth_drop_Suc)
  with True show ?thesis by (auto simp add: occurs_at_def)
next
  case False
  then have "drop i s = []" by simp
  with False show ?thesis by (simp add: occurs_at_def)
qed

lemma indexOf_single_absent: "c \<notin> set s \<Longrightarrow> indexOf s [c] = - 1"
  by (rule indexOf_absent) (auto simp: occurs_at_single)

lemma lastIndexOf_single_absent: "c \<notin> set s \<Longrightarrow> lastIndexOf s [c] = - 1"
  by (rule lastIndexOf_absent) (auto simp: occurs_at_single)

lemma length_takeWhile_neq_less:
  "c \<in> set s \<Longrightarrow> length (takeWhile (\<lambda>x. x \<noteq> c) s) < length s"
  by (induction s) auto

lemma indexOf_single_present:
  assumes "c \<in> set s"
  shows "indexOf s [c] = int (length (takeWhile (\<lambda>x. x \<noteq> c) s))"
proof (rule indexOf_first)
  let ?i = "length (takeWhile (\<lambda>x. x \<noteq> c) s)"
  have lt: "?i < length s" using assms by (rule length_takeWhile_neq_less)
  then have "\<not> (s ! ?i \<noteq> c)" by (rule nth_length_takeWhile)
  with lt show "occurs_at [c] s ?i" by (simp add: occurs_at_single)
  show "\<forall>j<?i. \<not> occurs_at [c] s j"
  proof (intro allI impI)
    fix j assume "j < ?i"
    then have "takeWhile (\<lambda>x. x \<noteq> c) s ! j \<in> set (takeWhile (\<lambda>x. x \<noteq> c) s)"
      by (rule nth_mem)
    then have "takeWhile (\<lambda>x. x \<noteq> c) s ! j \<noteq> c" by (blast dest: set_takeWhileD)
    with \<open>j < ?i\<close> have "s ! j \<noteq> c" by (simp add: takeWhile_nth)
    then show "\<not> occurs_at [c] s j" by (simp add: occurs_at_single)
  qed
qed

lemma lastIndexOf_single_present:
  assumes "c \<in> set s"
  shows "\<exists>j<length s. lastIndexOf s [c] = int j \<and> s ! j = c"
proof -
  from assms obtain i where "i < length s" "s ! i = c" by (auto simp: in_set_conv_nth)
  then have "occurs_at [c] s i" by (simp add: occurs_at_single)
  from lastIndexOf_present[OF this] show ?thesis by (auto simp: occurs_at_single)
qed

lemma lex_idle_no_LBrace:
  "lex_idle c = Some (toks, st', w) \<Longrightarrow> c \<noteq> CHR ''{'' \<Longrightarrow> LBrace \<notin> set toks"
  by (auto simp: lex_idle_def split: if_splits)

lemma lex_step_no_LBrace:
  "lex_step st c = Some (toks, st', w) \<Longrightarrow> c \<noteq> CHR ''{'' \<Longrightarrow> LBrace \<notin> set toks"
  by (cases st) (auto simp: Let_def split: if_splits option.splits list.splits dest: lex_idle_no_LBrace)

lemma lex_end_no_LBrace: "lex_end st = Some toks \<Longrightarrow> LBrace \<notin> set toks"
  by (cases st) (auto split: if_splits)

lemma lex_Cons_Some:
  assumes "lex st (c # cs) = Some (toks, w)"
  shows "\<exists>t1 st' w1 rest w'. lex_step st c = Some (t1, st', w1)
           \<and> lex st' cs = Some (rest, w') \<and> toks = t1 @ rest"
proof (cases "lex_step st c")
  case None
  with assms show ?thesis by simp
next
  case (Some r)
  obtain t1 st' w1 where r: "r = (t1, st', w1)" by (cases r)
  show ?thesis
  proof (cases "lex st' cs")
    case None
    with assms Some r show ?thesis by simp
  next
    case (Some q)
    obtain rest w' where q: "q = (rest, w')" by (cases q)
    from assms \<open>lex_step st c = Some r\<close> r Some q have "toks = t1 @ rest" by simp
    with \<open>lex_step st c = Some r\<close> r Some q show ?thesis by blast
  qed
qed

lemma lex_no_LBrace:
  "lex st s = Some (toks, w) \<Longrightarrow> CHR ''{'' \<notin> set s \<Longrightarrow> LBrace \<notin> set toks"
proof (induction s arbitrary: st toks w)
  case Nil
  then show ?case by (auto split: option.splits dest: lex_end_no_LBrace)
next
  case (Cons c cs)
  from lex_Cons_Some[OF Cons.prems(1)] obtain t1 st' w1 rest w' where
    s: "lex_step st c = Some (t1, st', w1)" and r: "lex st' cs = Some (rest, w')"
    and t: "toks = t1 @ rest"
    by blast
  from Cons.prems(2) have "c \<noteq> CHR ''{''" "CHR ''{'' \<notin> set cs" by auto
  with s r Cons.IH have "LBrace \<notin> set t1" "LBrace \<notin> set rest"
    by (auto dest: lex_step_no_LBrace)
  with t show ?case by simp
qed

lemma lex_idle_RBrace: "lex_idle (CHR ''}'') = Some ([RBrace], Idle, False)"
  by (simp add: lex_idle_def is_json_space_def)

lemma num_step_RBrace: "num_step ns (CHR ''}'') = None"
  by (cases ns) (simp_all add: is_digit_def)

lemma literal_name_no_RBrace: "CHR ''}'' \<notin> set (drop k (literal_name lit))"
proof -
  have "CHR ''}'' \<notin> set (literal_name lit)" by (cases lit) simp_all
  then show ?thesis by (meson in_set_dropD)
qed

lemma lex_step_RBrace:
  assumes "lex_step st (CHR ''}'') = Some (t1, st', w1)"
  shows "(t1 \<noteq> [] \<and> last t1 = RBrace \<and> st' = Idle) \<or> (\<exists>acc. st' = InString acc)"
proof (cases st)
  case Idle
  with assms show ?thesis by (auto simp add: lex_idle_RBrace)
next
  case (InString acc)
  with assms show ?thesis by (auto split: if_splits)
next
  case (InEscape acc)
  with assms show ?thesis by (simp add: unescape_def)
next
  case (InUnicode acc ds)
  with assms show ?thesis by (simp add: hex_value_def)
next
  case (InNumber ns lexeme)
  with assms show ?thesis
    by (auto simp: num_step_RBrace lex_idle_RBrace split: if_splits)
next
  case (InLiteral lit k)
  show ?thesis
  proof (cases "drop k (literal_name lit)")
    case Nil
    with assms InLiteral show ?thesis by simp
  next
    case (Cons d ds)
    then have "d \<in> set (drop k (literal_name lit))" by simp
    then have "d \<noteq> CHR ''}''" using literal_name_no_RBrace by metis
    with assms InLiteral Cons show ?thesis by auto
  qed
qed

lemma lex_last_RBrace:
  "lex st s = Some (toks, w) \<Longrightarrow> s \<noteq> [] \<Longrightarrow> last s = CHR ''}''
     \<Longrightarrow> toks \<noteq> [] \<and> last toks = RBrace"
proof (induction s arbitrary: st toks w)
  case Nil
  then show ?case by simp
next
  case (Cons c cs)
  from lex_Cons_Some[OF Cons.prems(1)] obtain t1 st' w1 rest w' where
    s: "lex_step st c = Some (t1, st', w1)" and r: "lex st' cs = Some (rest, w')"
    and t: "toks = t1 @ rest"
    by blast
  show ?case
  proof (cases "cs = []")
    case True
    with Cons.prems(3) have c: "c = CHR ''}''" by simp
    from r True have e: "lex_end st' = Some rest" by (auto split: option.splits)
    from lex_step_RBrace[OF s[unfolded c]] e have "t1 \<noteq> [] \<and> last t1 = RBrace \<and> rest = []"
      by auto
    with t show ?thesis by simp
  next
    case False
    with Cons.prems(3) have "last cs = CHR ''}''" by simp
    from Cons.IH[OF r False this] t show ?thesis by simp
  qed
qed

lemma complete_object_free: "list_all array_frame stk \<Longrightarrow> object_free (complete v stk)"
  by (induction v stk rule: complete.induct) auto

lemma begin_value_object_free:
  "list_all array_frame stk \<Longrightarrow> begin_value stk t = Some st' \<Longrightarrow> t \<noteq> LBrace
     \<Longrightarrow> object_free st' \<and> t \<noteq> RBrace"
  by (cases t) (auto simp: complete_object_free)

lemma parse_step_object_free:
  assumes "object_free st" "parse_step st t = Some st'" "t \<noteq> LBrace"
  shows "object_free st' \<and> t \<noteq> RBrace"
proof (cases st)
  case (WantValue stk)
  with assms show ?thesis using begin_value_object_free[of stk t st'] by simp
next
  case (ArrayOpened stk)
  show ?thesis
  proof (cases "t = RBracket")
    case True
    with assms ArrayOpened show ?thesis by (auto simp: complete_object_free)
  next
    case False
    with assms ArrayOpened show ?thesis
      using begin_value_object_free[of "ArrayFrame [] # stk" t st'] by simp
  qed
next
  case (AfterElement es stk)
  with assms show ?thesis by (auto simp: complete_object_free split: if_splits)
qed (use assms in simp_all)

lemma parse_tokens_object_free:
  "object_free st \<Longrightarrow> LBrace \<notin> set ts \<Longrightarrow> RBrace \<in> set ts \<Longrightarrow> parse_tokens st ts = None"
proof (induction ts arbitrary: st)
  case Nil
  then show ?case by simp
next
  case (Cons t ts)
  show ?case
  proof (cases "parse_step st t")
    case None
    then show ?thesis by simp
  next
    case (Some st')
    from Cons.prems(2) have n: "t \<noteq> LBrace" "LBrace \<notin> set ts" by auto
    from parse_step_object_free[OF Cons.prems(1) Some n(1)]
    have o: "object_free st'" and r: "t \<noteq> RBrace" by auto
    from r Cons.prems(3) have "RBrace \<in> set ts" by simp
    from Cons.IH[OF o n(2) this] Some show ?thesis by simp
  qed
qed

lemma JSON_parse_closing_brace_only:
  assumes "CHR ''{'' \<notin> set s" "s \<noteq> []" "last s = CHR ''}''"
  shows "JSON_parse s = Inl (SyntaxError ''JSON.parse'')"
proof (cases "lex Idle s")
  case None
  then show ?thesis by (simp add: JSON_parse_def)
next
  case (Some r)
  obtain toks w where r: "r = (toks, w)" by (cases r)
  from Some r have l: "lex Idle s = Some (toks, w)" by simp
  from lex_no_LBrace[OF l assms(1)] have a: "LBrace \<notin> set toks" .
  from lex_last_RBrace[OF l assms(2,3)] have "RBrace \<in> set toks"
    by (metis last_in_set)
  with a have "parse_tokens (WantValue []) toks = None"
    by (intro parse_tokens_object_free) auto
  with l show ?thesis by (simp add: JSON_parse_def)
qed

lemma JSON_parse_empty: "JSON_parse [] = Inl (SyntaxError ''JSON.parse'')"
  by (simp add: JSON_parse_def)

lemma parseJSON_no_opening_brace:
  assumes "CHR ''{'' \<notin> set str"
  shows "parseJSON str = Inl (SyntaxError ''JSON.parse'')"
proof (cases "CHR ''}'' \<in> set str")
  case False
  have "indexOf str ''{'' = - 1" using assms by (rule indexOf_single_absent)
  moreover have "lastIndexOf str ''}'' = - 1" using False by (rule lastIndexOf_single_absent)
  ultimately show ?thesis
    by (simp add: parseJSON_def substring_def JSON_parse_empty)
next
  case True
  have s: "indexOf str ''{'' = - 1" using assms by (rule indexOf_single_absent)
  from lastIndexOf_single_present[OF True] obtain j where
    j: "j < length str" "lastIndexOf str ''}'' = int j" "str ! j = CHR ''}''" by blast
  have sub: "substring str (- 1) (int j + 1) = take (Suc j) str"
    using j(1) by (simp add: substring_def Let_def min_def max_def nat_add_distrib)
  have ne: "take (Suc j) str \<noteq> []" using j(1) by auto
  have la: "last (take (Suc j) str) = CHR ''}''"
    using j(1,3) by (simp add: take_Suc_conv_app_nth)
  have no: "CHR ''{'' \<notin> set (take (Suc j) str)" using assms by (meson in_set_takeD)
  show ?thesis
    by (simp add: parseJSON_def s j(2) sub JSON_parse_closing_brace_only[OF no ne la])
qed

lemma parseJSON_no_closing_brace:
  assumes "CHR ''{'' \<in> set str" "CHR ''}'' \<notin> set str"
  shows "parseJSON str = JSON_parse (takeWhile (\<lambda>c. c \<noteq> CHR ''{'') str)"
proof -
  let ?i = "length (takeWhile (\<lambda>c. c \<noteq> CHR ''{'') str)"
  have s: "indexOf str ''{'' = int ?i" using assms(1) by (rule indexOf_single_present)
  have e: "lastIndexOf str ''}'' = - 1" using assms(2) by (rule lastIndexOf_single_absent)
  have "?i \<le> length str" by (rule length_takeWhile_le)
  then have "substring str (int ?i) 0 = take ?i str"
    by (simp add: substring_clamped_end)
  also have "\<dots> = takeWhile (\<lambda>c. c \<noteq> CHR ''{'') str"
    by (rule takeWhile_eq_take[symmetric])
  finally show ?thesis by (simp add: parseJSON_def s e)
qed

lemma parseJSON_braces:
  assumes "indexOf str ''{'' = int i" "lastIndexOf str ''}'' = int j" "i \<le> j"
  shows "parseJSON str = JSON_parse (take (Suc j - i) (drop i str))"
proof -
  have "occurs_at ''}'' str j" using assms(2) by (simp add: lastIndexOf_eq_iff)
  then have "j < length str" by (simp add: occurs_at_single)
  then have "int i \<le> int (Suc j)" "int (Suc j) \<le> int (length str)"
    using assms(3) by simp_all
  from substring_ordered[OF _ this, of ] have
    "substring str (int i) (int (Suc j)) = take (nat (int (Suc j) - int i)) (drop i str)"
    by simp
  moreover have "nat (int (Suc j) - int i) = Suc j - i" by linarith
  moreover have "int j + 1 = int (Suc j)" by simp
  ultimately have "substring str (int i) (int j + 1) = take (Suc j - i) (drop i str)"
    by (simp add: ac_simps)
  then show ?thesis by (simp add: parseJSON_def assms(1,2))
qed


text \<open>
  C3, as the code has it. When the first \<open>{\<close> is not after the last \<open>}\<close>,
  \<open>parseJSON\<close> is \<open>JSON.parse\<close> of the text from the one to the other, both included:
  it returns the parsed value when that text is JSON and throws otherwise. A text
  with no \<open>{\<close> always makes it throw a \<open>SyntaxError\<close>. A text with a \<open>{\<close> and no
  \<open>}\<close> does not: \<open>substring\<close> swaps its arguments, and what is parsed is the text
  before the first \<open>{\<close>.
\<close>

theorem parseJSON_extraction:
  "(\<forall>i j. indexOf str ''{'' = int i \<and> lastIndexOf str ''}'' = int j \<and> i \<le> j \<longrightarrow>
      parseJSON str = JSON_parse (take (Suc j - i) (drop i str)))
   \<and> (CHR ''{'' \<notin> set str \<longrightarrow> parseJSON str = Inl (SyntaxError ''JSON.parse''))
   \<and> (CHR ''{'' \<in> set str \<and> CHR ''}'' \<notin> set str \<longrightarrow>
      parseJSON str = JSON_parse (takeWhile (\<lambda>c. c \<noteq> CHR ''{'') str))"
  using parseJSON_braces parseJSON_no_opening_brace parseJSON_no_closing_brace by blast

theorem parseJSON_extraction_witness:
  \<open>parseJSON ''Here: {"spec":"S1"} done'' = Inr (JObject [(''spec'', JString ''S1'')])
   \<and> parseJSON ''abc}'' = Inl (SyntaxError ''JSON.parse'')
   \<and> parseJSON ''true {'' = Inr (JBool True)\<close>
proof -
  have a: \<open>indexOf ''Here: {"spec":"S1"} done'' ''{'' = int 6\<close>
    by (simp add: indexOf_def)
  have b: \<open>lastIndexOf ''Here: {"spec":"S1"} done'' ''}'' = int 18\<close>
    by (simp add: lastIndexOf_def)
  have c: \<open>JSON_parse (take (Suc 18 - 6) (drop 6 ''Here: {"spec":"S1"} done''))
             = Inr (JObject [(''spec'', JString ''S1'')])\<close>
    by (simp add: JSON_parse_def lex_idle_def is_json_space_def is_digit_def)
  have 1: \<open>parseJSON ''Here: {"spec":"S1"} done'' = Inr (JObject [(''spec'', JString ''S1'')])\<close>
    using parseJSON_extraction[of \<open>''Here: {"spec":"S1"} done''\<close>] a b c by simp
  have 2: "parseJSON ''abc}'' = Inl (SyntaxError ''JSON.parse'')"
    using parseJSON_extraction[of "''abc}''"] by simp
  have d: "JSON_parse (takeWhile (\<lambda>c. c \<noteq> CHR ''{'') ''true {'') = Inr (JBool True)"
    by (simp add: JSON_parse_def lex_idle_def is_json_space_def is_digit_def)
  have 3: "parseJSON ''true {'' = Inr (JBool True)"
    using parseJSON_extraction[of "''true {''"] d by simp
  from 1 2 3 show ?thesis by blast
qed

text \<open>
  The text \<open>1{\<close> has no \<open>}\<close>, and \<open>parseJSON\<close> returns the number 1 for it. And a
  text may hold a balanced, valid \<open>{"a":1}\<close> while \<open>parseJSON\<close> throws, because the
  text from its first \<open>{\<close> to its last \<open>}\<close> is not JSON.
\<close>

theorem parseJSON_no_closing_brace_counterexample:
  \<open>CHR ''}'' \<notin> set ''1{'' \<and> parseJSON ''1{'' = Inr (JNumber ''1'')
   \<and> JSON_parse ''{"a":1}'' = Inr (JObject [(''a'', JNumber ''1'')])
   \<and> parseJSON ''{"a":1} {"b":2}'' = Inl (SyntaxError ''JSON.parse'')\<close>
  by (simp add: parseJSON_def indexOf_def lastIndexOf_def substring_def JSON_parse_def
        lex_idle_def is_json_space_def is_digit_def)

section \<open>Properties of the pipeline\<close>

lemma generateText_Inr:
  assumes "fst (generateText key call options) = Inr t"
  shows "\<exists>request. generateText_request key options = Inr request
           \<and> generateText_response (call request) = Inr t
           \<and> snd (generateText key call options) = [request]"
  using assms by (cases "generateText_request key options") (auto simp: generateText_def)

lemma generateText_Inl:
  assumes "fst (generateText key call options) = Inl e"
  shows "(generateText_request key options = Inl e \<and> snd (generateText key call options) = [])
       \<or> (\<exists>request. generateText_request key options = Inr request
              \<and> generateText_response (call request) = Inl e
              \<and> snd (generateText key call options) = [request])"
  using assms by (cases "generateText_request key options") (auto simp: generateText_def)

lemma generateContent_two_stages:
  assumes "\<not> preSeeded props"
    and "generateText_request (GEMINI_API_KEY env)
           (generateSpecFromVideo_options env (contentBasis props)) = Inr request1"
    and "generateText_response (models_generateContent env request1) = Inr (Some t1)"
    and "parseJSON t1 = Inr v"
    and "get_spec v = Inr field"
    and "append_addendum env field = Inr generatedSpec"
    and "generateText_request (GEMINI_API_KEY env)
           (generateCodeFromSpec_options generatedSpec) = Inr request2"
    and "generateText_response (models_generateContent env request2) = Inr (Some t2)"
  shows "generateContent env props st =
           (st\<lparr> loadingState := ready, error := None,
                spec := generatedSpec,
                code := parseHTML t2 (CODE_REGION_OPENER env) (CODE_REGION_CLOSER env) \<rparr>,
            [request1, request2])"
  using assms
  by (simp add: generateContent_def generateContent_start_def generateContent_afterSpec_def
        generateContent_afterCode_def generateSpecFromVideo_resume_def
        generateCodeFromSpec_resume_def Let_def)

lemma indexOf_brace_prefix:
  assumes "c \<notin> set pre"
  shows "indexOf (pre @ c # rest) [c] = int (length pre)"
proof -
  have "takeWhile (\<lambda>x. x \<noteq> c) (pre @ c # rest) = pre"
    using assms by (induction pre) auto
  moreover have "c \<in> set (pre @ c # rest)" by simp
  ultimately show ?thesis using indexOf_single_present[of c "pre @ c # rest"] by simp
qed

lemma lastIndexOf_brace_suffix:
  assumes "c \<notin> set post"
  shows "lastIndexOf (xs @ c # post) [c] = int (length xs)"
proof (rule lastIndexOf_last)
  show "occurs_at [c] (xs @ c # post) (length xs)" by (simp add: occurs_at_single)
  show "\<forall>j>length xs. \<not> occurs_at [c] (xs @ c # post) j"
  proof (intro allI impI)
    fix j assume j: "length xs < j"
    show "\<not> occurs_at [c] (xs @ c # post) j"
    proof
      assume "occurs_at [c] (xs @ c # post) j"
      then have l: "j < length (xs @ c # post)" and e: "(xs @ c # post) ! j = c"
        by (simp_all add: occurs_at_single)
      from j obtain k where k: "j = length xs + Suc k" by (metis less_iff_Suc_add add_Suc_right)
      with l have "k < length post" by simp
      moreover from e k have "post ! k = c" by (simp add: nth_append)
      ultimately show False using assms by (metis nth_mem)
    qed
  qed
qed

lemma parseJSON_payload:
  assumes "CHR ''{'' \<notin> set pre" "CHR ''}'' \<notin> set post"
  shows "parseJSON (pre @ CHR ''{'' # body @ CHR ''}'' # post)
           = JSON_parse (CHR ''{'' # body @ [CHR ''}''])"
proof -
  let ?s = "pre @ CHR ''{'' # body @ CHR ''}'' # post"
  have i: "indexOf ?s ''{'' = int (length pre)" using assms(1) by (rule indexOf_brace_prefix)
  have "lastIndexOf ((pre @ CHR ''{'' # body) @ CHR ''}'' # post) ''}''
          = int (length (pre @ CHR ''{'' # body))"
    using assms(2) by (rule lastIndexOf_brace_suffix)
  then have j: "lastIndexOf ?s ''}'' = int (length pre + Suc (length body))" by simp
  have "parseJSON ?s = JSON_parse (take (Suc (length pre + Suc (length body)) - length pre)
                                     (drop (length pre) ?s))"
    using i j by (intro parseJSON_braces) simp_all
  then show ?thesis by simp
qed

lemma JSON_parse_S1: \<open>JSON_parse ''{"spec":"S1"}'' = Inr (JObject [(''spec'', JString ''S1'')])\<close>
  by (simp add: JSON_parse_def lex_idle_def is_json_space_def is_digit_def)


text \<open>
  C1. A fresh run (not pre-seeded) whose first call returns a text with the JSON
  payload \<open>{"spec":"S1"}\<close> (no \<open>{\<close> before it and no \<open>}\<close> after it) and whose second
  call returns a text containing \<open><!DOCTYPE html>CODE1</html>\<close> followed by the
  closing delimiter ends in state \<open>ready\<close>, with the spec \<open>S1\<close> followed by the
  addendum and the code the part of the second text from its first
  \<open><!DOCTYPE html>\<close> up to where the last closing delimiter begins.
\<close>

theorem fresh_run_ready:
  assumes fresh: "\<not> preSeeded props"
    and pre: "CHR ''{'' \<notin> set pre"
    and post: "CHR ''}'' \<notin> set post"
    and stage1: \<open>fst (generateText (GEMINI_API_KEY env) (models_generateContent env)
                    (generateSpecFromVideo_options env (contentBasis props)))
                 = Inr (Some (pre @ ''{"spec":"S1"}'' @ post))\<close>
    and stage2: "fst (generateText (GEMINI_API_KEY env) (models_generateContent env)
                    (generateCodeFromSpec_options (''S1'' @ SPEC_ADDENDUM env)))
                 = Inr (Some t2)"
    and t2: "t2 = a @ ''<!DOCTYPE html>CODE1</html>'' @ CODE_REGION_CLOSER env @ b"
  shows "loadingState (fst (mount env props)) = ready
       \<and> spec (fst (mount env props)) = ''S1'' @ SPEC_ADDENDUM env
       \<and> (\<exists>i j. indexOf t2 ''<!DOCTYPE html>'' = int i
              \<and> lastIndexOf t2 (CODE_REGION_CLOSER env) = int j
              \<and> i \<le> j
              \<and> code (fst (mount env props)) = take (j - i) (drop i t2))
       \<and> error (fst (mount env props)) = None
       \<and> length (snd (mount env props)) = 2"
proof -
  let ?t1 = \<open>pre @ ''{"spec":"S1"}'' @ post\<close>
  let ?closer = "CODE_REGION_CLOSER env"
  from generateText_Inr[OF stage1] obtain request1 where
    q1: "generateText_request (GEMINI_API_KEY env)
           (generateSpecFromVideo_options env (contentBasis props)) = Inr request1"
    and r1: "generateText_response (models_generateContent env request1) = Inr (Some ?t1)"
    by blast
  from generateText_Inr[OF stage2] obtain request2 where
    q2: "generateText_request (GEMINI_API_KEY env)
           (generateCodeFromSpec_options (''S1'' @ SPEC_ADDENDUM env)) = Inr request2"
    and r2: "generateText_response (models_generateContent env request2) = Inr (Some t2)"
    by blast
  have \<open>parseJSON (pre @ CHR ''{'' # ''"spec":"S1"'' @ CHR ''}'' # post)
          = JSON_parse (CHR ''{'' # ''"spec":"S1"'' @ [CHR ''}''])\<close>
    using pre post by (rule parseJSON_payload)
  then have p: "parseJSON ?t1 = Inr (JObject [(''spec'', JString ''S1'')])"
    using JSON_parse_S1 by simp
  have g: "get_spec (JObject [(''spec'', JString ''S1'')]) = Inr (Some (JString ''S1''))"
    by simp
  have ad: "append_addendum env (Some (JString ''S1'')) = Inr (''S1'' @ SPEC_ADDENDUM env)"
    by (simp add: append_addendum_def)
  have run: "mount env props =
               (initialState props\<lparr> loadingState := ready, error := None,
                  spec := ''S1'' @ SPEC_ADDENDUM env,
                  code := parseHTML t2 (CODE_REGION_OPENER env) ?closer \<rparr>,
                [request1, request2])"
    unfolding mount_def
    using generateContent_two_stages[OF fresh q1 r1 p g ad q2 r2, of "initialState props"]
    by simp
  have "t2 = a @ DOCTYPE @ (''CODE1</html>'' @ ?closer @ b)" by (simp add: t2 DOCTYPE_def)
  then have "occurs_at DOCTYPE t2 (length a)" using occurs_at_append by metis
  from indexOf_present[OF this] obtain i where
    i: "i \<le> length a" "indexOf t2 DOCTYPE = int i" by blast
  have "t2 = (a @ ''<!DOCTYPE html>CODE1</html>'') @ ?closer @ b" by (simp add: t2)
  then have "occurs_at ?closer t2 (length (a @ ''<!DOCTYPE html>CODE1</html>''))"
    using occurs_at_append by metis
  from lastIndexOf_present[OF this] obtain j where
    j: "length (a @ ''<!DOCTYPE html>CODE1</html>'') \<le> j" "lastIndexOf t2 ?closer = int j"
       "occurs_at ?closer t2 j" by blast
  have ij: "i \<le> j" using i(1) j(1) by simp
  have jl: "j \<le> length t2" using j(3) by (simp add: occurs_at_def)
  have "parseHTML t2 (CODE_REGION_OPENER env) ?closer = substring t2 (int i) (int j)"
    by (simp add: parseHTML_def i(2) j(2))
  also have "\<dots> = take (nat (int j - int i)) (drop (nat (int i)) t2)"
    using ij jl by (intro substring_ordered) simp_all
  also have "\<dots> = take (j - i) (drop i t2)" using ij by (simp add: nat_diff_distrib')
  finally have c: "parseHTML t2 (CODE_REGION_OPENER env) ?closer = take (j - i) (drop i t2)" .
  have "\<exists>i j. indexOf t2 ''<!DOCTYPE html>'' = int i \<and> lastIndexOf t2 ?closer = int j \<and> i \<le> j
          \<and> code (fst (mount env props)) = take (j - i) (drop i t2)"
    using i(2) j(2) ij c run by (auto simp: DOCTYPE_def)
  then show ?thesis using run by simp
qed


theorem fresh_run_ready_witness:
  "loadingState (fst (mount scenario_env scenario_props)) = ready
   \<and> spec (fst (mount scenario_env scenario_props)) = ''S1ADDENDUM''
   \<and> code (fst (mount scenario_env scenario_props)) = ''<!DOCTYPE html>CODE1</html>''
   \<and> length (snd (mount scenario_env scenario_props)) = 2"
proof -
  have fresh: "\<not> preSeeded scenario_props"
    by (simp add: preSeeded_def scenario_props_def truthy_opt_def)
  have stage1: \<open>fst (generateText (GEMINI_API_KEY scenario_env)
                      (models_generateContent scenario_env)
                      (generateSpecFromVideo_options scenario_env (contentBasis scenario_props)))
                 = Inr (Some ([] @ ''{"spec":"S1"}'' @ []))\<close>
    by (simp add: scenario_env_def scenario_response_def generateText_def
          generateText_request_def generateText_response_def generateSpecFromVideo_options_def
          prompt_blockReason_def truthy_value_def truthy_opt_def truthy_def FinishReason_STOP_def)
  have stage2: "fst (generateText (GEMINI_API_KEY scenario_env)
                      (models_generateContent scenario_env)
                      (generateCodeFromSpec_options (''S1'' @ SPEC_ADDENDUM scenario_env)))
                 = Inr (Some ''<!DOCTYPE html>CODE1</html>CLOSER'')"
    by (simp add: scenario_env_def scenario_response_def generateText_def
          generateText_request_def generateText_response_def generateCodeFromSpec_options_def
          prompt_blockReason_def truthy_value_def truthy_opt_def truthy_def FinishReason_STOP_def)
  have t2: "''<!DOCTYPE html>CODE1</html>CLOSER''
              = [] @ ''<!DOCTYPE html>CODE1</html>'' @ CODE_REGION_CLOSER scenario_env @ []"
    by (simp add: scenario_env_def)
  have i: "indexOf ''<!DOCTYPE html>CODE1</html>CLOSER'' ''<!DOCTYPE html>'' = int 0"
    by (simp add: indexOf_def)
  have j: "lastIndexOf ''<!DOCTYPE html>CODE1</html>CLOSER'' (CODE_REGION_CLOSER scenario_env)
             = int 27"
    by (simp add: lastIndexOf_def scenario_env_def)
  from fresh_run_ready[OF fresh _ _ stage1 stage2 t2] i j
  have "loadingState (fst (mount scenario_env scenario_props)) = ready"
    and "spec (fst (mount scenario_env scenario_props)) = ''S1'' @ SPEC_ADDENDUM scenario_env"
    and "code (fst (mount scenario_env scenario_props))
           = take (27 - 0) (drop 0 ''<!DOCTYPE html>CODE1</html>CLOSER'')"
    and "length (snd (mount scenario_env scenario_props)) = 2"
    by auto
  then show ?thesis by (simp add: scenario_env_def)
qed


text \<open>
  C6. Saving an edit whose trimmed text equals the stored spec sends no request and
  leaves the loading state, the spec, the code and the error as they are; only the
  editor closes.
\<close>

theorem handleSpecSave_unchanged:
  assumes "trim (editedSpec st) = spec st"
  shows "snd (handleSpecSave env st) = []
       \<and> loadingState (fst (handleSpecSave env st)) = loadingState st
       \<and> spec (fst (handleSpecSave env st)) = spec st
       \<and> code (fst (handleSpecSave env st)) = code st
       \<and> error (fst (handleSpecSave env st)) = error st
       \<and> fst (handleSpecSave env st) = st\<lparr> isEditingSpec := False, editedSpec := [] \<rparr>"
  using assms by (simp add: handleSpecSave_def handleSpecSave_start_def)

theorem handleSpecSave_unchanged_witness:
  "trim (editedSpec editing_state) = spec editing_state
   \<and> snd (handleSpecSave scenario_env editing_state) = []
   \<and> fst (handleSpecSave scenario_env editing_state)
       = editing_state\<lparr> isEditingSpec := False, editedSpec := [] \<rparr>
   \<and> loadingState (fst (handleSpecSave scenario_env editing_state)) = ready
   \<and> code (fst (handleSpecSave scenario_env editing_state)) = ''<!DOCTYPE html>CODE1</html>''"
proof -
  have e: "trim (editedSpec editing_state) = spec editing_state"
    by (simp add: editing_state_def trim_def is_js_whitespace_def)
  from handleSpecSave_unchanged[OF e, of scenario_env] e show ?thesis
    by (simp add: editing_state_def)
qed

lemma handleSpecSave_changed:
  assumes "trim (editedSpec st) \<noteq> spec st"
  shows "handleSpecSave_start env st =
           (case generateText_request (GEMINI_API_KEY env)
                   (generateCodeFromSpec_options (trim (editedSpec st))) of
              Inl e \<Rightarrow> (catch_error e (st\<lparr> loadingState := loading_code, error := None,
                            spec := trim (editedSpec st), isEditingSpec := False,
                            activeTabIndex := 1 \<rparr>), None)
            | Inr request \<Rightarrow> (st\<lparr> loadingState := loading_code, error := None,
                            spec := trim (editedSpec st), isEditingSpec := False,
                            activeTabIndex := 1 \<rparr>, Some request))"
  using assms by (simp add: handleSpecSave_start_def Let_def split: sum.splits)

lemma handleSpecSave_failure:
  assumes ch: "trim (editedSpec st) \<noteq> spec st"
    and f: "fst (generateText (GEMINI_API_KEY env) (models_generateContent env)
                  (generateCodeFromSpec_options (trim (editedSpec st)))) = Inl e"
  shows "fst (handleSpecSave env st) =
           st\<lparr> loadingState := error_state, error := Some (error_message e),
                spec := trim (editedSpec st), isEditingSpec := False, activeTabIndex := 1 \<rparr>"
proof -
  from generateText_Inl[OF f] show ?thesis
  proof
    assume "generateText_request (GEMINI_API_KEY env)
              (generateCodeFromSpec_options (trim (editedSpec st))) = Inl e
            \<and> snd (generateText (GEMINI_API_KEY env) (models_generateContent env)
                  (generateCodeFromSpec_options (trim (editedSpec st)))) = []"
    then show ?thesis
      by (simp add: handleSpecSave_def handleSpecSave_changed[OF ch] catch_error_def)
  next
    assume "\<exists>request. generateText_request (GEMINI_API_KEY env)
              (generateCodeFromSpec_options (trim (editedSpec st))) = Inr request
            \<and> generateText_response (models_generateContent env request) = Inl e
            \<and> snd (generateText (GEMINI_API_KEY env) (models_generateContent env)
                  (generateCodeFromSpec_options (trim (editedSpec st)))) = [request]"
    then show ?thesis
      by (auto simp add: handleSpecSave_def handleSpecSave_changed[OF ch] catch_error_def
            handleSpecSave_afterCode_def generateCodeFromSpec_resume_def)
  qed
qed

lemma handleSpecSave_regenerates:
  assumes ch: "trim (editedSpec st) \<noteq> spec st"
  shows "handleSpecSave env st =
           (case generateCodeFromSpec env (trim (editedSpec st)) of
              (Inl e, requests) \<Rightarrow>
                (st\<lparr> loadingState := error_state, error := Some (error_message e),
                     spec := trim (editedSpec st), isEditingSpec := False,
                     activeTabIndex := 1 \<rparr>, requests)
            | (Inr generatedCode, requests) \<Rightarrow>
                (st\<lparr> loadingState := ready, error := None,
                     spec := trim (editedSpec st), isEditingSpec := False,
                     activeTabIndex := 1, code := generatedCode \<rparr>, requests))"
proof (cases "generateText_request (GEMINI_API_KEY env)
                (generateCodeFromSpec_options (trim (editedSpec st)))")
  case (Inl e)
  then show ?thesis
    by (simp add: handleSpecSave_def handleSpecSave_changed[OF ch] generateCodeFromSpec_def
          generateText_def generateCodeFromSpec_resume_def catch_error_def)
next
  case (Inr request)
  then show ?thesis
    by (simp add: handleSpecSave_def handleSpecSave_changed[OF ch] generateCodeFromSpec_def
          generateText_def handleSpecSave_afterCode_def catch_error_def split: sum.splits)
qed

lemma generateCodeFromSpec_no_text:
  assumes "generateText_request (GEMINI_API_KEY env) (generateCodeFromSpec_options spec')
             = Inr request"
    and "generateText_response (models_generateContent env request) = Inr None"
  shows "fst (generateCodeFromSpec env spec')
           = Inl (TypeError ''Cannot read properties of undefined (reading 'indexOf')'')"
  using assms
  by (simp add: generateCodeFromSpec_def generateText_def generateCodeFromSpec_resume_def)

lemma generateCodeFromSpec_call_failed:
  assumes "fst (generateText (GEMINI_API_KEY env) (models_generateContent env)
                  (generateCodeFromSpec_options spec')) = Inl e"
  shows "fst (generateCodeFromSpec env spec') = Inl e"
  using assms
  by (cases "generateText (GEMINI_API_KEY env) (models_generateContent env)
               (generateCodeFromSpec_options spec')")
     (simp add: generateCodeFromSpec_def generateCodeFromSpec_resume_def)

text \<open>
  C7. When the trimmed edit differs from the stored spec, the spec is replaced by
  the trimmed edit before the call is made: the state with which the request goes
  out holds it, and the request carries it as its prompt. When the regeneration
  then fails, the state is \<open>error_state\<close> with the failure's message, the spec still
  is the trimmed edit and the code is the old one. The regeneration fails when
  \<open>generateText\<close> fails, at once or on the backend's answer, and when the extraction
  does: an answer without text makes \<open>parseHTML\<close> throw a \<open>TypeError\<close>.
\<close>

theorem handleSpecSave_keeps_edited_spec:
  assumes ch: "trim (editedSpec st) \<noteq> spec st"
  shows "spec (fst (handleSpecSave_start env st)) = trim (editedSpec st)
       \<and> (\<forall>request. snd (handleSpecSave_start env st) = Some request \<longrightarrow>
             loadingState (fst (handleSpecSave_start env st)) = loading_code
             \<and> prompt_of request = trim (editedSpec st))
       \<and> (\<forall>e. fst (generateText (GEMINI_API_KEY env) (models_generateContent env)
                  (generateCodeFromSpec_options (trim (editedSpec st)))) = Inl e \<longrightarrow>
             loadingState (fst (handleSpecSave env st)) = error_state
             \<and> error (fst (handleSpecSave env st)) = Some (error_message e)
             \<and> spec (fst (handleSpecSave env st)) = trim (editedSpec st)
             \<and> code (fst (handleSpecSave env st)) = code st)
       \<and> (\<forall>e. fst (generateCodeFromSpec env (trim (editedSpec st))) = Inl e \<longrightarrow>
             loadingState (fst (handleSpecSave env st)) = error_state
             \<and> error (fst (handleSpecSave env st)) = Some (error_message e)
             \<and> spec (fst (handleSpecSave env st)) = trim (editedSpec st)
             \<and> code (fst (handleSpecSave env st)) = code st)
       \<and> (\<forall>request. generateText_request (GEMINI_API_KEY env)
                  (generateCodeFromSpec_options (trim (editedSpec st))) = Inr request
             \<and> generateText_response (models_generateContent env request) = Inr None \<longrightarrow>
             loadingState (fst (handleSpecSave env st)) = error_state
             \<and> error (fst (handleSpecSave env st))
                 = Some ''Cannot read properties of undefined (reading 'indexOf')''
             \<and> spec (fst (handleSpecSave env st)) = trim (editedSpec st)
             \<and> code (fst (handleSpecSave env st)) = code st)
       \<and> (\<forall>outcome st1 e. spec st1 = trim (editedSpec st)
             \<and> generateCodeFromSpec_resume env (generateText_response outcome) = Inl e \<longrightarrow>
             loadingState (handleSpecSave_afterCode env outcome st1) = error_state
             \<and> error (handleSpecSave_afterCode env outcome st1) = Some (error_message e)
             \<and> spec (handleSpecSave_afterCode env outcome st1) = trim (editedSpec st))"
proof -
  have a: "spec (fst (handleSpecSave_start env st)) = trim (editedSpec st)"
    by (simp add: handleSpecSave_changed[OF ch] catch_error_def split: sum.splits)
  have b: "loadingState (fst (handleSpecSave_start env st)) = loading_code
             \<and> prompt_of request = trim (editedSpec st)"
    if "snd (handleSpecSave_start env st) = Some request" for request
    using that
    by (auto simp add: handleSpecSave_changed[OF ch] generateText_request_def
          generateCodeFromSpec_options_def prompt_of_def split: sum.splits if_splits)
  have g: "loadingState (fst (handleSpecSave env st)) = error_state
             \<and> error (fst (handleSpecSave env st)) = Some (error_message e)
             \<and> spec (fst (handleSpecSave env st)) = trim (editedSpec st)
             \<and> code (fst (handleSpecSave env st)) = code st"
    if h: "fst (generateCodeFromSpec env (trim (editedSpec st))) = Inl e" for e
    using h
    by (auto simp add: handleSpecSave_regenerates[OF ch] split: prod.splits sum.splits)
  have c: "loadingState (fst (handleSpecSave env st)) = error_state
             \<and> error (fst (handleSpecSave env st)) = Some (error_message e)
             \<and> spec (fst (handleSpecSave env st)) = trim (editedSpec st)
             \<and> code (fst (handleSpecSave env st)) = code st"
    if "fst (generateText (GEMINI_API_KEY env) (models_generateContent env)
              (generateCodeFromSpec_options (trim (editedSpec st)))) = Inl e" for e
    using that by (intro g generateCodeFromSpec_call_failed)
  have x: "loadingState (fst (handleSpecSave env st)) = error_state
             \<and> error (fst (handleSpecSave env st))
                 = Some ''Cannot read properties of undefined (reading 'indexOf')''
             \<and> spec (fst (handleSpecSave env st)) = trim (editedSpec st)
             \<and> code (fst (handleSpecSave env st)) = code st"
    if "generateText_request (GEMINI_API_KEY env)
          (generateCodeFromSpec_options (trim (editedSpec st))) = Inr request"
       "generateText_response (models_generateContent env request) = Inr None"
    for request
    using g[OF generateCodeFromSpec_no_text[OF that]] by simp
  have d: "loadingState (handleSpecSave_afterCode env outcome st1) = error_state
             \<and> error (handleSpecSave_afterCode env outcome st1) = Some (error_message e)
             \<and> spec (handleSpecSave_afterCode env outcome st1) = trim (editedSpec st)"
    if "spec st1 = trim (editedSpec st)"
       "generateCodeFromSpec_resume env (generateText_response outcome) = Inl e"
    for outcome st1 e
    using that by (simp add: handleSpecSave_afterCode_def catch_error_def)
  from a b c g x d show ?thesis by blast
qed

theorem handleSpecSave_keeps_edited_spec_witness:
  "trim (editedSpec (editing_state\<lparr> editedSpec := '' new spec '' \<rparr>)) = ''new spec''
   \<and> spec (fst (handleSpecSave_start blocked_env
                   (editing_state\<lparr> editedSpec := '' new spec '' \<rparr>))) = ''new spec''
   \<and> fst (handleSpecSave blocked_env (editing_state\<lparr> editedSpec := '' new spec '' \<rparr>))
       = editing_state\<lparr> editedSpec := '' new spec '', loadingState := error_state,
           error := Some ''Content generation failed: Response blocked due to safety settings.'',
           spec := ''new spec'', isEditingSpec := False, activeTabIndex := 1 \<rparr>
   \<and> loadingState (fst (handleSpecSave textless_env
                   (editing_state\<lparr> editedSpec := '' new spec '' \<rparr>))) = error_state
   \<and> error (fst (handleSpecSave textless_env
                   (editing_state\<lparr> editedSpec := '' new spec '' \<rparr>)))
       = Some ''Cannot read properties of undefined (reading 'indexOf')''
   \<and> spec (fst (handleSpecSave textless_env
                   (editing_state\<lparr> editedSpec := '' new spec '' \<rparr>))) = ''new spec''
   \<and> code (fst (handleSpecSave textless_env
                   (editing_state\<lparr> editedSpec := '' new spec '' \<rparr>)))
       = ''<!DOCTYPE html>CODE1</html>''"
proof -
  let ?st = "editing_state\<lparr> editedSpec := '' new spec '' \<rparr>"
  let ?q = "\<lparr> model = ''gemini-2.5-pro-preview-03-25'', parts = [TextPart ''new spec''],
              config_temperature = 3 / 4 \<rparr>"
  have t: "trim (editedSpec ?st) = ''new spec''"
    by (simp add: trim_def is_js_whitespace_def)
  have ch: "trim (editedSpec ?st) \<noteq> spec ?st"
    unfolding t by (simp add: editing_state_def)
  have f: "fst (generateText (GEMINI_API_KEY blocked_env) (models_generateContent blocked_env)
                  (generateCodeFromSpec_options (trim (editedSpec ?st))))
             = Inl (Error ''Content generation failed: Response blocked due to safety settings.'')"
    by (simp add: blocked_env_def scenario_env_def scenario_response_def generateText_def
          generateText_request_def generateText_response_def generateCodeFromSpec_options_def
          prompt_blockReason_def truthy_value_def truthy_opt_def truthy_def
          FinishReason_STOP_def FinishReason_SAFETY_def)
  have q: "generateText_request (GEMINI_API_KEY textless_env)
             (generateCodeFromSpec_options (trim (editedSpec ?st))) = Inr ?q"
    unfolding t
    by (simp add: textless_env_def scenario_env_def generateText_request_def
          generateCodeFromSpec_options_def truthy_opt_def truthy_def)
  have n: "generateText_response (models_generateContent textless_env ?q) = Inr None"
    by (simp add: textless_env_def scenario_env_def generateText_response_def
          prompt_blockReason_def truthy_value_def truthy_def FinishReason_STOP_def)
  have 1: "spec (fst (handleSpecSave_start blocked_env ?st)) = ''new spec''"
    and 2: "loadingState (fst (handleSpecSave blocked_env ?st)) = error_state"
    and 3: "error (fst (handleSpecSave blocked_env ?st))
              = Some ''Content generation failed: Response blocked due to safety settings.''"
    and 4: "spec (fst (handleSpecSave blocked_env ?st)) = ''new spec''"
    using handleSpecSave_keeps_edited_spec[OF ch, of blocked_env] f t by simp_all
  have 5: "loadingState (fst (handleSpecSave textless_env ?st)) = error_state
           \<and> error (fst (handleSpecSave textless_env ?st))
               = Some ''Cannot read properties of undefined (reading 'indexOf')''
           \<and> spec (fst (handleSpecSave textless_env ?st)) = ''new spec''
           \<and> code (fst (handleSpecSave textless_env ?st)) = code ?st"
    using handleSpecSave_keeps_edited_spec[OF ch, of textless_env] q n t by simp
  have 6: "fst (handleSpecSave blocked_env ?st)
             = ?st\<lparr> loadingState := error_state,
                   error := Some ''Content generation failed: Response blocked due to safety settings.'',
                   spec := ''new spec'', isEditingSpec := False, activeTabIndex := 1 \<rparr>"
    using handleSpecSave_failure[OF ch f] t by simp
  from t 1 5 6 show ?thesis by (simp add: editing_state_def)
qed

lemma last_dropWhile:
  "dropWhile P xs \<noteq> [] \<Longrightarrow> last (dropWhile P xs) = last xs"
  by (induction xs) (auto split: if_splits)

lemma trim_ends:
  assumes "trim t \<noteq> []"
  shows "\<not> is_js_whitespace (hd (trim t)) \<and> \<not> is_js_whitespace (last (trim t))"
proof -
  let ?u = "dropWhile is_js_whitespace t"
  let ?w = "dropWhile is_js_whitespace (rev ?u)"
  have w: "?w \<noteq> []" using assms by (simp add: trim_def)
  have u: "?u \<noteq> []"
  proof
    assume "?u = []"
    then have "?w = []" by (simp only: rev.simps dropWhile.simps)
    with w show False by blast
  qed
  have "last (trim t) = hd ?w" using w by (simp add: trim_def last_rev)
  moreover have "\<not> is_js_whitespace (hd ?w)" using w by (rule hd_dropWhile)
  moreover have "hd (trim t) = last ?w" using w by (simp add: trim_def hd_rev)
  moreover have "last ?w = last (rev ?u)" using w by (rule last_dropWhile)
  moreover have "last (rev ?u) = hd ?u" using u by (simp add: last_rev)
  moreover have "\<not> is_js_whitespace (hd ?u)" using u by (rule hd_dropWhile)
  ultimately show ?thesis by simp
qed

lemma trim_neq_untrimmed:
  assumes "s \<noteq> []" "is_js_whitespace (hd s) \<or> is_js_whitespace (last s)"
  shows "trim t \<noteq> s"
  using assms trim_ends[of t] by auto

lemma not_preSeeded_reset:
  "\<not> preSeeded props \<Longrightarrow>
     generateContent_start env props (initialState props) =
       (case generateText_request (GEMINI_API_KEY env)
               (generateSpecFromVideo_options env (contentBasis props)) of
          Inl e \<Rightarrow> (catch_error e \<lparr> spec = [], code = [], saveMessage = [],
                        loadingState = loading_spec, error = None, isEditingSpec = False,
                        editedSpec = [], activeTabIndex = 0 \<rparr>, None)
        | Inr request \<Rightarrow> (\<lparr> spec = [], code = [], saveMessage = [],
                        loadingState = loading_spec, error = None, isEditingSpec = False,
                        editedSpec = [], activeTabIndex = 0 \<rparr>, Some request))"
  by (simp add: generateContent_start_def initialState_def Let_def split: sum.splits)

text \<open>
  C8. When exactly one of the pre-seeded spec and code is a non-empty string, the
  component starts in \<open>loading_spec\<close> and its run is the run of a component given
  neither: the effect clears spec and code and, with a credential configured, sends
  the first-stage request for the video reference; when both stages succeed the
  run has sent two requests and ends \<open>ready\<close> with the generated spec and code.
\<close>

theorem partial_preseed_ignored:
  assumes one: "truthy_opt (preSeededSpec props) \<noteq> truthy_opt (preSeededCode props)"
  shows "loadingState (initialState props) = loading_spec
       \<and> mount env props = mount env (props\<lparr> preSeededSpec := None, preSeededCode := None \<rparr>)
       \<and> (truthy_opt (GEMINI_API_KEY env) \<longrightarrow>
            generateContent_start env props (initialState props) =
              (\<lparr> spec = [], code = [], saveMessage = [], loadingState = loading_spec,
                 error = None, isEditingSpec = False, editedSpec = [], activeTabIndex = 0 \<rparr>,
               Some \<lparr> model = ''gemini-2.0-flash'',
                      parts = TextPart (SPEC_FROM_VIDEO_PROMPT env) #
                        (if truthy (contentBasis props)
                         then [FileDataPart ''video/mp4'' (contentBasis props)] else []),
                      config_temperature = 3 / 4 \<rparr>))
       \<and> (\<forall>request1 t1 v field generatedSpec request2 t2.
            generateText_request (GEMINI_API_KEY env)
              (generateSpecFromVideo_options env (contentBasis props)) = Inr request1
            \<and> generateText_response (models_generateContent env request1) = Inr (Some t1)
            \<and> parseJSON t1 = Inr v \<and> get_spec v = Inr field
            \<and> append_addendum env field = Inr generatedSpec
            \<and> generateText_request (GEMINI_API_KEY env)
                (generateCodeFromSpec_options generatedSpec) = Inr request2
            \<and> generateText_response (models_generateContent env request2) = Inr (Some t2) \<longrightarrow>
            snd (mount env props) = [request1, request2]
            \<and> loadingState (fst (mount env props)) = ready
            \<and> spec (fst (mount env props)) = generatedSpec
            \<and> code (fst (mount env props))
                = parseHTML t2 (CODE_REGION_OPENER env) (CODE_REGION_CLOSER env))"
proof -
  let ?props' = "props\<lparr> preSeededSpec := None, preSeededCode := None \<rparr>"
  have n: "\<not> preSeeded props" using one by (auto simp: preSeeded_def)
  have n': "\<not> preSeeded ?props'" by (simp add: preSeeded_def truthy_opt_def)
  have a: "loadingState (initialState props) = loading_spec"
    using n by (simp add: initialState_def)
  have s: "generateContent_start env props (initialState props)
             = generateContent_start env ?props' (initialState ?props')"
    by (simp add: not_preSeeded_reset[OF n] not_preSeeded_reset[OF n'])
  have b: "mount env props = mount env ?props'"
    by (simp add: mount_def generateContent_def s)
  have c: "generateContent_start env props (initialState props) =
              (\<lparr> spec = [], code = [], saveMessage = [], loadingState = loading_spec,
                 error = None, isEditingSpec = False, editedSpec = [], activeTabIndex = 0 \<rparr>,
               Some \<lparr> model = ''gemini-2.0-flash'',
                      parts = TextPart (SPEC_FROM_VIDEO_PROMPT env) #
                        (if truthy (contentBasis props)
                         then [FileDataPart ''video/mp4'' (contentBasis props)] else []),
                      config_temperature = 3 / 4 \<rparr>)"
    if "truthy_opt (GEMINI_API_KEY env)"
    using that
    by (simp add: not_preSeeded_reset[OF n] generateText_request_def
          generateSpecFromVideo_options_def)
  have d: "snd (mount env props) = [request1, request2]
            \<and> loadingState (fst (mount env props)) = ready
            \<and> spec (fst (mount env props)) = generatedSpec
            \<and> code (fst (mount env props))
                = parseHTML t2 (CODE_REGION_OPENER env) (CODE_REGION_CLOSER env)"
    if "generateText_request (GEMINI_API_KEY env)
              (generateSpecFromVideo_options env (contentBasis props)) = Inr request1"
       "generateText_response (models_generateContent env request1) = Inr (Some t1)"
       "parseJSON t1 = Inr v" "get_spec v = Inr field"
       "append_addendum env field = Inr generatedSpec"
       "generateText_request (GEMINI_API_KEY env)
                (generateCodeFromSpec_options generatedSpec) = Inr request2"
       "generateText_response (models_generateContent env request2) = Inr (Some t2)"
    for request1 t1 v field generatedSpec request2 t2
    unfolding mount_def
    by (simp add: generateContent_two_stages[OF n that])
  from a b c d show ?thesis by blast
qed

theorem partial_preseed_ignored_witness:
  "truthy_opt (preSeededSpec (scenario_props\<lparr> preSeededSpec := Some ''X'' \<rparr>))
   \<and> \<not> truthy_opt (preSeededCode (scenario_props\<lparr> preSeededSpec := Some ''X'' \<rparr>))
   \<and> spec (initialState (scenario_props\<lparr> preSeededSpec := Some ''X'' \<rparr>)) = ''X''
   \<and> loadingState (initialState (scenario_props\<lparr> preSeededSpec := Some ''X'' \<rparr>))
       = loading_spec
   \<and> mount scenario_env (scenario_props\<lparr> preSeededSpec := Some ''X'' \<rparr>)
       = mount scenario_env scenario_props
   \<and> generateContent_start scenario_env (scenario_props\<lparr> preSeededSpec := Some ''X'' \<rparr>)
         (initialState (scenario_props\<lparr> preSeededSpec := Some ''X'' \<rparr>))
       = (\<lparr> spec = [], code = [], saveMessage = [], loadingState = loading_spec,
            error = None, isEditingSpec = False, editedSpec = [], activeTabIndex = 0 \<rparr>,
          Some \<lparr> model = ''gemini-2.0-flash'',
                 parts = [TextPart ''PROMPT'', FileDataPart ''video/mp4'' ''V1''],
                 config_temperature = 3 / 4 \<rparr>)
   \<and> snd (mount scenario_env (scenario_props\<lparr> preSeededSpec := Some ''X'' \<rparr>))
       = [\<lparr> model = ''gemini-2.0-flash'',
             parts = [TextPart ''PROMPT'', FileDataPart ''video/mp4'' ''V1''],
             config_temperature = 3 / 4 \<rparr>,
          \<lparr> model = ''gemini-2.5-pro-preview-03-25'', parts = [TextPart ''S1ADDENDUM''],
             config_temperature = 3 / 4 \<rparr>]
   \<and> loadingState (fst (mount scenario_env (scenario_props\<lparr> preSeededSpec := Some ''X'' \<rparr>)))
       = ready
   \<and> spec (fst (mount scenario_env (scenario_props\<lparr> preSeededSpec := Some ''X'' \<rparr>)))
       = ''S1ADDENDUM''
   \<and> code (fst (mount scenario_env (scenario_props\<lparr> preSeededSpec := Some ''X'' \<rparr>)))
       = ''<!DOCTYPE html>CODE1</html>''"
proof -
  let ?p = "scenario_props\<lparr> preSeededSpec := Some ''X'' \<rparr>"
  let ?q1 = "\<lparr> model = ''gemini-2.0-flash'',
               parts = [TextPart ''PROMPT'', FileDataPart ''video/mp4'' ''V1''],
               config_temperature = 3 / 4 \<rparr>"
  let ?q2 = "\<lparr> model = ''gemini-2.5-pro-preview-03-25'', parts = [TextPart ''S1ADDENDUM''],
               config_temperature = 3 / 4 \<rparr>"
  have s: "truthy_opt (preSeededSpec ?p)" by (simp add: truthy_opt_def truthy_def)
  have c: "\<not> truthy_opt (preSeededCode ?p)"
    by (simp add: scenario_props_def truthy_opt_def)
  have one: "truthy_opt (preSeededSpec ?p) \<noteq> truthy_opt (preSeededCode ?p)"
    using s c by simp
  have i: "spec (initialState ?p) = ''X''" by (simp add: initialState_def or_empty_def)
  have k: "truthy_opt (GEMINI_API_KEY scenario_env)"
    by (simp add: scenario_env_def truthy_opt_def truthy_def)
  have r: "?p\<lparr> preSeededSpec := None, preSeededCode := None \<rparr> = scenario_props"
    by (simp add: scenario_props_def)
  have q1: "generateText_request (GEMINI_API_KEY scenario_env)
              (generateSpecFromVideo_options scenario_env (contentBasis ?p)) = Inr ?q1"
    by (simp add: scenario_env_def scenario_props_def generateText_request_def
          generateSpecFromVideo_options_def truthy_opt_def truthy_def)
  have r1: \<open>generateText_response (models_generateContent scenario_env ?q1)
              = Inr (Some ''{"spec":"S1"}'')\<close>
    by (simp add: scenario_env_def scenario_response_def generateText_response_def
          prompt_blockReason_def truthy_value_def truthy_def FinishReason_STOP_def)
  have p1: \<open>parseJSON ''{"spec":"S1"}'' = Inr (JObject [(''spec'', JString ''S1'')])\<close>
    by (simp add: parseJSON_def indexOf_def lastIndexOf_def substring_def JSON_parse_def
          lex_idle_def is_json_space_def is_digit_def)
  have g1: "get_spec (JObject [(''spec'', JString ''S1'')]) = Inr (Some (JString ''S1''))"
    by simp
  have a1: "append_addendum scenario_env (Some (JString ''S1'')) = Inr ''S1ADDENDUM''"
    by (simp add: append_addendum_def scenario_env_def)
  have q2: "generateText_request (GEMINI_API_KEY scenario_env)
              (generateCodeFromSpec_options ''S1ADDENDUM'') = Inr ?q2"
    by (simp add: scenario_env_def generateText_request_def generateCodeFromSpec_options_def
          truthy_opt_def truthy_def)
  have r2: "generateText_response (models_generateContent scenario_env ?q2)
              = Inr (Some ''<!DOCTYPE html>CODE1</html>CLOSER'')"
    by (simp add: scenario_env_def scenario_response_def generateText_response_def
          prompt_blockReason_def truthy_value_def truthy_def FinishReason_STOP_def)
  have h: "parseHTML ''<!DOCTYPE html>CODE1</html>CLOSER'' (CODE_REGION_OPENER scenario_env)
             (CODE_REGION_CLOSER scenario_env) = ''<!DOCTYPE html>CODE1</html>''"
    by (simp add: parseHTML_def indexOf_def lastIndexOf_def substring_def DOCTYPE_def
          scenario_env_def)
  note t = partial_preseed_ignored[OF one, of scenario_env]
  have 123: "loadingState (initialState ?p) = loading_spec
             \<and> mount scenario_env ?p = mount scenario_env scenario_props
             \<and> generateContent_start scenario_env ?p (initialState ?p)
                 = (\<lparr> spec = [], code = [], saveMessage = [], loadingState = loading_spec,
                      error = None, isEditingSpec = False, editedSpec = [],
                      activeTabIndex = 0 \<rparr>, Some ?q1)"
    using t k r by (simp add: scenario_env_def scenario_props_def truthy_def)
  have 4: "snd (mount scenario_env ?p) = [?q1, ?q2]
           \<and> loadingState (fst (mount scenario_env ?p)) = ready
           \<and> spec (fst (mount scenario_env ?p)) = ''S1ADDENDUM''
           \<and> code (fst (mount scenario_env ?p))
               = parseHTML ''<!DOCTYPE html>CODE1</html>CLOSER''
                   (CODE_REGION_OPENER scenario_env) (CODE_REGION_CLOSER scenario_env)"
    using t q1 r1 p1 g1 a1 q2 r2 by blast
  from s c i 123 4 h show ?thesis by simp
qed

text \<open>
  C10. Only the edited text is trimmed; the stored spec is compared as it is. So
  when the stored spec begins or ends with white space, saving an edit that equals
  it up to surrounding white space is a change: the spec becomes the trimmed edit
  and, with a credential configured, the second-stage request is sent with the
  trimmed edit as its prompt.
\<close>

theorem handleSpecSave_untrimmed_stored_spec:
  assumes ne: "spec st \<noteq> []"
    and ws: "is_js_whitespace (hd (spec st)) \<or> is_js_whitespace (last (spec st))"
    and same: "trim (editedSpec st) = trim (spec st)"
  shows "trim (editedSpec st) \<noteq> spec st
       \<and> spec (fst (handleSpecSave env st)) = trim (editedSpec st)
       \<and> (loadingState (fst (handleSpecSave env st)) = ready
            \<or> loadingState (fst (handleSpecSave env st)) = error_state)
       \<and> (truthy_opt (GEMINI_API_KEY env) \<longrightarrow>
            snd (handleSpecSave env st)
              = [\<lparr> model = ''gemini-2.5-pro-preview-03-25'',
                    parts = [TextPart (trim (editedSpec st))],
                    config_temperature = 3 / 4 \<rparr>])"
proof -
  have ch: "trim (editedSpec st) \<noteq> spec st" using ne ws by (rule trim_neq_untrimmed)
  have a: "spec (fst (handleSpecSave env st)) = trim (editedSpec st)
             \<and> (loadingState (fst (handleSpecSave env st)) = ready
                  \<or> loadingState (fst (handleSpecSave env st)) = error_state)"
    by (simp add: handleSpecSave_def handleSpecSave_changed[OF ch] handleSpecSave_afterCode_def
          catch_error_def split: sum.splits)
  have b: "snd (handleSpecSave env st)
              = [\<lparr> model = ''gemini-2.5-pro-preview-03-25'',
                    parts = [TextPart (trim (editedSpec st))],
                    config_temperature = 3 / 4 \<rparr>]"
    if "truthy_opt (GEMINI_API_KEY env)"
    using that
    by (simp add: handleSpecSave_def handleSpecSave_changed[OF ch] generateText_request_def
          generateCodeFromSpec_options_def)
  from ch a b show ?thesis by blast
qed


theorem handleSpecSave_untrimmed_stored_spec_witness:
  "editedSpec (handleSpecEdit (editing_state\<lparr> spec := ''S1'' @ [CHR 0x0A] \<rparr>))
     = spec (handleSpecEdit (editing_state\<lparr> spec := ''S1'' @ [CHR 0x0A] \<rparr>))
   \<and> spec (fst (handleSpecSave scenario_env
               (handleSpecEdit (editing_state\<lparr> spec := ''S1'' @ [CHR 0x0A] \<rparr>)))) = ''S1''
   \<and> snd (handleSpecSave scenario_env
               (handleSpecEdit (editing_state\<lparr> spec := ''S1'' @ [CHR 0x0A] \<rparr>)))
       = [\<lparr> model = ''gemini-2.5-pro-preview-03-25'', parts = [TextPart ''S1''],
             config_temperature = 3 / 4 \<rparr>]"
proof -
  let ?st = "handleSpecEdit (editing_state\<lparr> spec := ''S1'' @ [CHR 0x0A] \<rparr>)"
  have sp: "spec ?st = ''S1'' @ [CHR 0x0A]" "editedSpec ?st = ''S1'' @ [CHR 0x0A]"
    by (simp_all add: handleSpecEdit_def)
  have ne: "spec ?st \<noteq> []" by (simp add: handleSpecEdit_def)
  have ws: "is_js_whitespace (hd (spec ?st)) \<or> is_js_whitespace (last (spec ?st))"
    by (simp add: handleSpecEdit_def is_js_whitespace_def)
  have t: "trim (editedSpec ?st) = ''S1''"
    by (simp add: handleSpecEdit_def trim_def is_js_whitespace_def)
  have same: "trim (editedSpec ?st) = trim (spec ?st)" by (simp add: handleSpecEdit_def)
  have k: "truthy_opt (GEMINI_API_KEY scenario_env)"
    by (simp add: scenario_env_def truthy_opt_def truthy_def)
  from handleSpecSave_untrimmed_stored_spec[OF ne ws same, of scenario_env] k t sp
  show ?thesis by simp
qed

section \<open>Properties of the runs of App\<close>

lemma container_props_contentLoading [simp]:
  "container_props (a\<lparr> contentLoading := b \<rparr>) = container_props a"
  by (simp add: container_props_def)

lemma render_rendered: "rendered (render env w)"
  by (auto simp: render_def rendered_def Let_def fresh_instance_def split: option.splits)

lemma step_rendered: "rendered (step env e w)"
  unfolding step_def by (rule render_rendered)

lemma run_events_rendered: "rendered w \<Longrightarrow> rendered (run_events env es w)"
  by (induction es arbitrary: w) (simp_all add: step_rendered)

lemma render_fixed: "rendered w \<Longrightarrow> render env w = w"
  by (auto simp: render_def rendered_def Let_def split: option.splits if_splits)

lemma render_counter: "reloadCounter (app (render env w)) = reloadCounter (app w)"
  by (simp add: render_def Let_def)

lemma handleSubmit_start_counter:
  "reloadCounter a \<le> reloadCounter (handleSubmit_start exs raw a)"
  by (simp add: handleSubmit_start_def proceedWithVideo_def Let_def split: list.splits)

lemma on_mounted_app: "app (on_mounted f w) = app w"
  by (simp add: on_mounted_def split: option.splits)

lemma deliver_app: "app (deliver env k aw outcome w) = app w"
  by (simp add: deliver_def split: option.splits)

lemma handle_counter: "reloadCounter (app w) \<le> reloadCounter (app (handle env e w))"
  by (cases e)
     (simp_all add: handleExampleSelect_def handleSubmit_start_counter handleSubmit_validated_def
        proceedWithVideo_def input_onChange_def on_mounted_app deliver_app)

lemma step_counter: "reloadCounter (app w) \<le> reloadCounter (app (step env e w))"
  by (simp add: step_def render_counter handle_counter)

lemma run_events_counter:
  "reloadCounter (app w) \<le> reloadCounter (app (run_events env es w))"
proof (induction es arbitrary: w)
  case Nil
  show ?case by simp
next
  case (Cons e es)
  have "reloadCounter (app w) \<le> reloadCounter (app (step env e w))" by (rule step_counter)
  also have "\<dots> \<le> reloadCounter (app (run_events env es (step env e w)))" by (rule Cons.IH)
  finally show ?case by simp
qed

lemma deliver_other_key:
  assumes "rendered w" "k \<noteq> reloadCounter (app w)"
  shows "deliver env k aw outcome w = w"
  using assms by (auto simp: deliver_def rendered_def split: option.splits if_splits)

lemma stale_answer:
  assumes "rendered w" "k \<noteq> reloadCounter (app w)"
  shows "step env (Answered k aw outcome) w = w"
  by (simp add: step_def deliver_other_key[OF assms] render_fixed[OF assms(1)])

lemma handleSubmit_start_example:
  assumes "\<not> urlValidating a" "truthy (trim raw)"
    and "list_ex (\<lambda>example. url example = trim raw) exs"
  shows "reloadCounter (handleSubmit_start exs raw a) = Suc (reloadCounter a)"
proof (cases exs)
  case Nil
  with assms(3) show ?thesis by simp
next
  case (Cons defaultExample rest)
  with assms show ?thesis
    by (auto simp: handleSubmit_start_def proceedWithVideo_def Let_def)
qed

text \<open>
  The events that assign a content basis: selecting an example, a submission found
  valid, and the submission of an example's URL, which needs no validation.
\<close>

lemma new_run_counter:
  assumes "e = ExampleSelect example \<or> e = Validated inputValue True
           \<or> (e = Submit raw \<and> \<not> urlValidating (app w) \<and> truthy (trim raw)
                \<and> list_ex (\<lambda>x. url x = trim raw) (examples w))"
  shows "reloadCounter (app (step env e w)) = Suc (reloadCounter (app w))"
  using assms
  by (auto simp: step_def render_counter handleExampleSelect_def handleSubmit_validated_def
        proceedWithVideo_def handleSubmit_start_example)

lemma answer_nothing_mounted:
  assumes "rendered w" "mounted w = None"
  shows "step env (Answered k aw outcome) w = w"
  by (simp add: step_def deliver_def assms(2) render_fixed[OF assms(1)])

lemma rendered_key:
  "rendered w \<Longrightarrow> mounted w = Some i \<Longrightarrow> inst_key i = reloadCounter (app w)"
  by (auto simp: rendered_def split: if_splits)

text \<open>
  C4. Let a run V1 be on screen, and let the basis be reassigned, by selecting an
  example, by a validated submission or by submitting an example's URL. The component of the new run V2 is created
  under the next key. Whatever happens afterwards, an answer of the backend to a
  call of V1 changes nothing of what is visible: neither the state of \<open>App\<close> nor the
  mounted component's spec, code or loading state. More generally, an answer to a
  call made under any key but the current one is never committed, and neither is
  any answer while nothing is mounted.
\<close>

theorem stale_completion_never_committed:
  assumes r: "rendered w"
    and v1: "mounted w = Some v1"
    and e: "e = ExampleSelect example \<or> e = Validated inputValue True
            \<or> (e = Submit raw \<and> \<not> urlValidating (app w) \<and> truthy (trim raw)
                 \<and> list_ex (\<lambda>x. url x = trim raw) (examples w))"
  shows "(\<forall>es aw outcome.
            visible (step env (Answered (inst_key v1) aw outcome)
                       (run_events env es (step env e w)))
              = visible (run_events env es (step env e w)))
       \<and> (\<forall>es k aw outcome. k \<noteq> reloadCounter (app (run_events env es w)) \<longrightarrow>
            visible (step env (Answered k aw outcome) (run_events env es w))
              = visible (run_events env es w))
       \<and> (\<forall>es k aw outcome. mounted (run_events env es w) = None \<longrightarrow>
            visible (step env (Answered k aw outcome) (run_events env es w))
              = visible (run_events env es w))
       \<and> (\<forall>v2. mounted (step env e w) = Some v2 \<longrightarrow> inst_key v2 = Suc (inst_key v1))"
proof -
  have k1: "inst_key v1 = reloadCounter (app w)" using r v1 by (rule rendered_key)
  have a: "visible (step env (Answered (inst_key v1) aw outcome)
                       (run_events env es (step env e w)))
              = visible (run_events env es (step env e w))" for es aw outcome
  proof -
    let ?w' = "run_events env es (step env e w)"
    have "Suc (reloadCounter (app w)) \<le> reloadCounter (app ?w')"
      using run_events_counter[of "step env e w" env es] new_run_counter[OF e, of env] by simp
    then have n: "inst_key v1 \<noteq> reloadCounter (app ?w')" using k1 by simp
    have "rendered ?w'" by (intro run_events_rendered step_rendered)
    from stale_answer[OF this n] show ?thesis by simp
  qed
  have b: "visible (step env (Answered k aw outcome) (run_events env es w))
              = visible (run_events env es w)"
    if "k \<noteq> reloadCounter (app (run_events env es w))" for es k aw outcome
  proof -
    have "rendered (run_events env es w)" using r by (rule run_events_rendered)
    from stale_answer[OF this that] show ?thesis by simp
  qed
  have c: "inst_key v2 = Suc (inst_key v1)"
    if "mounted (step env e w) = Some v2" for v2
    using rendered_key[OF step_rendered that] new_run_counter[OF e, of env] k1 by simp
  have d: "visible (step env (Answered k aw outcome) (run_events env es w))
              = visible (run_events env es w)"
    if "mounted (run_events env es w) = None" for es k aw outcome
  proof -
    have "rendered (run_events env es w)" using r by (rule run_events_rendered)
    from answer_nothing_mounted[OF this that] show ?thesis by simp
  qed
  from a b c d show ?thesis by blast
qed


theorem stale_completion_never_committed_witness:
  \<open>visible (run_events scenario_env
       [ExampleSelect example2,
        Answered 1 AwaitSpec (Inr (scenario_response ''{"spec":"A"}'')),
        Validated ''https://v/3'' True,
        Answered 1 AwaitCode (Inr (scenario_response ''<!DOCTYPE html>V1</html>CLOSER''))]
       initial_world)
   = visible (run_events scenario_env
       [ExampleSelect example2,
        Answered 1 AwaitSpec (Inr (scenario_response ''{"spec":"A"}'')),
        Validated ''https://v/3'' True]
       initial_world)
   \<and> mounted (run_events scenario_env
       [ExampleSelect example2,
        Answered 1 AwaitSpec (Inr (scenario_response ''{"spec":"A"}''))]
       initial_world)
     = Some \<lparr> inst_key = 1,
              inst_props = \<lparr> contentBasis = ''https://v/2'', preSeededSpec = Some [],
                             preSeededCode = Some [] \<rparr>,
              inst_state = \<lparr> spec = ''AADDENDUM'', code = [], saveMessage = [],
                             loadingState = loading_code, error = None,
                             isEditingSpec = False, editedSpec = [], activeTabIndex = 0 \<rparr> \<rparr>\<close>
proof -
  let ?r1 = \<open>Inr (scenario_response ''{"spec":"A"}'')\<close>
  let ?r2 = "Inr (scenario_response ''<!DOCTYPE html>V1</html>CLOSER'')"
  let ?w = "run_events scenario_env [ExampleSelect example2, Answered 1 AwaitSpec ?r1] initial_world"
  let ?v1 = "\<lparr> inst_key = 1,
              inst_props = \<lparr> contentBasis = ''https://v/2'', preSeededSpec = Some [],
                             preSeededCode = Some [] \<rparr>,
              inst_state = \<lparr> spec = ''AADDENDUM'', code = [], saveMessage = [],
                             loadingState = loading_code, error = None,
                             isEditingSpec = False, editedSpec = [], activeTabIndex = 0 \<rparr> \<rparr>"
  have i: "rendered initial_world"
    by (simp add: rendered_def initial_world_def truthy_def)
  have r: "rendered ?w" using i by (rule run_events_rendered)
  have m: "mounted ?w = Some ?v1"
    by (simp add: step_def render_def fresh_instance_def container_props_def
          handleExampleSelect_def deliver_def initial_world_def example2_def truthy_def
          truthy_opt_def preSeeded_def initialState_def generateContent_start_def
          generateText_request_def generateSpecFromVideo_options_def scenario_env_def
          isLoading_def or_empty_def Let_def generateContent_afterSpec_def
          generateText_response_def scenario_response_def generateSpecFromVideo_resume_def
          prompt_blockReason_def truthy_value_def FinishReason_STOP_def parseJSON_def
          indexOf_def lastIndexOf_def substring_def JSON_parse_def lex_idle_def
          is_json_space_def is_digit_def append_addendum_def generateCodeFromSpec_options_def)
  have e: "Validated ''https://v/3'' True = ExampleSelect example2
             \<or> Validated ''https://v/3'' True = Validated ''https://v/3'' True
             \<or> (Validated ''https://v/3'' True = Submit []
                  \<and> \<not> urlValidating (app ?w) \<and> truthy (trim [])
                  \<and> list_ex (\<lambda>x. url x = trim []) (examples ?w))"
    by simp
  from stale_completion_never_committed[OF r m e, of scenario_env]
  have "visible (step scenario_env (Answered (inst_key ?v1) AwaitCode ?r2)
                   (run_events scenario_env [] (step scenario_env (Validated ''https://v/3'' True) ?w)))
          = visible (run_events scenario_env [] (step scenario_env (Validated ''https://v/3'' True) ?w))"
    by blast
  then show ?thesis using m by simp
qed

end
